theory Spec2Isabelle
  imports Main "HOL-Library.Sublist" "HOL-Library.Multiset"
begin

section \<open>Python values\<close>

text \<open>
  The records that the compound database client hands to \<^verbatim>\<open>fetch.py\<close> are decoded
  JSON objects: Python dicts with string keys whose values are \<^verbatim>\<open>None\<close>, booleans,
  integers, strings, lists or dicts again. A dict is kept as an association list, read
  with \<open>map_of\<close> (the first binding of a key). Floating-point numbers are not part of
  the model. Strings are lists of characters; case folding and white space are those
  of ASCII.
\<close>

datatype pyval =
    PNone
  | PBool bool
  | PInt int
  | PStr string
  | PList "pyval list"
  | PDict "(string \<times> pyval) list"

type_synonym pydict = "(string \<times> pyval) list"

text \<open>The exceptions that the script can raise outside a \<^verbatim>\<open>try\<close> block.\<close>

datatype error = ValueError | AttributeError | TypeError | IndexError | KeyError

text \<open>\<^verbatim>\<open>d.get(k)\<close>: the value bound to \<open>k\<close>, and \<^verbatim>\<open>None\<close> when the key is missing.\<close>

definition dget :: "pydict \<Rightarrow> string \<Rightarrow> pyval" where
  "dget d k = (case map_of d k of None \<Rightarrow> PNone | Some v \<Rightarrow> v)"

text \<open>Truth value testing, as \<^verbatim>\<open>if v:\<close>, \<^verbatim>\<open>a or b\<close> and \<^verbatim>\<open>a and b\<close> apply it.\<close>

fun truthy :: "pyval \<Rightarrow> bool" where
  "truthy PNone = False"
| "truthy (PBool b) = b"
| "truthy (PInt n) = (n \<noteq> 0)"
| "truthy (PStr s) = (s \<noteq> [])"
| "truthy (PList xs) = (xs \<noteq> [])"
| "truthy (PDict kvs) = (kvs \<noteq> [])"

text \<open>\<^verbatim>\<open>a or b\<close> evaluates to \<open>a\<close> when \<open>a\<close> is true, and to \<open>b\<close> otherwise.\<close>

definition py_or :: "pyval \<Rightarrow> pyval \<Rightarrow> pyval" where
  "py_or a b = (if truthy a then a else b)"

section \<open>Strings\<close>

text \<open>
  White space as \<^verbatim>\<open>str.strip()\<close> and \<^verbatim>\<open>str.split()\<close> see it within ASCII: the
  characters 9 to 13, the separators 28 to 31, and the blank.
\<close>

definition is_space :: "char \<Rightarrow> bool" where
  "is_space c = (let n = (of_char c :: nat) in (9 \<le> n \<and> n \<le> 13) \<or> (28 \<le> n \<and> n \<le> 32))"

definition lower_char :: "char \<Rightarrow> char" where
  "lower_char c =
     (case map_of (zip ''ABCDEFGHIJKLMNOPQRSTUVWXYZ'' ''abcdefghijklmnopqrstuvwxyz'') c of
        None \<Rightarrow> c
      | Some d \<Rightarrow> d)"

text \<open>\<^verbatim>\<open>s.lower()\<close>\<close>

definition lower :: "string \<Rightarrow> string" where
  "lower s = map lower_char s"

text \<open>\<^verbatim>\<open>s.strip()\<close>\<close>

definition strip :: "string \<Rightarrow> string" where
  "strip s = rev (dropWhile is_space (rev (dropWhile is_space s)))"

text \<open>
  \<^verbatim>\<open>s.split()[0]\<close>: the first run of characters that are not white space.
  When \<open>s\<close> holds white space only, \<^verbatim>\<open>s.split()\<close> is empty and the index raises.
\<close>

definition split_first :: "string \<Rightarrow> error + string" where
  "split_first s =
     (case dropWhile is_space s of
        [] \<Rightarrow> Inl IndexError
      | c # cs \<Rightarrow> Inr (takeWhile (\<lambda>x. \<not> is_space x) (c # cs)))"

text \<open>\<^verbatim>\<open>xs in ys\<close> on strings: \<open>xs\<close> occurs in \<open>ys\<close> as a contiguous piece.\<close>

fun py_in :: "string \<Rightarrow> string \<Rightarrow> bool" where
  "py_in xs [] = (xs = [])"
| "py_in xs (y # ys) = (prefix xs (y # ys) \<or> py_in xs ys)"

text \<open>
  \<^verbatim>\<open>(v).lower().strip()\<close> on a value: only a string has the method \<^verbatim>\<open>lower\<close>.
\<close>

definition lower_strip :: "pyval \<Rightarrow> error + string" where
  "lower_strip v = (case v of PStr s \<Rightarrow> Inr (strip (lower s)) | _ \<Rightarrow> Inl AttributeError)"

subsection \<open>Reading and printing integers\<close>

definition is_digit :: "char \<Rightarrow> bool" where
  "is_digit c = (let n = (of_char c :: nat) in 48 \<le> n \<and> n \<le> 57)"

definition digit_val :: "char \<Rightarrow> nat" where
  "digit_val c = of_char c - 48"

text \<open>
  The digits of a decimal literal given to \<^verbatim>\<open>int()\<close>: at least one digit, and
  single underscores between digits only. The flag tells whether the character
  before was a digit.
\<close>

fun parse_digits :: "string \<Rightarrow> bool \<Rightarrow> nat \<Rightarrow> nat option" where
  "parse_digits [] prev acc = (if prev then Some acc else None)"
| "parse_digits (c # cs) prev acc =
     (if is_digit c then parse_digits cs True (10 * acc + digit_val c)
      else if c = CHR ''_'' \<and> prev then parse_digits cs False acc
      else None)"

text \<open>
  \<^verbatim>\<open>int()\<close> skips less at both ends of an ASCII string than \<^verbatim>\<open>strip()\<close> does:
  the characters 9 to 13 and the blank, but not the separators 28 to 31.
\<close>

definition is_int_space :: "char \<Rightarrow> bool" where
  "is_int_space c = (let n = (of_char c :: nat) in (9 \<le> n \<and> n \<le> 13) \<or> n = 32)"

definition int_strip :: "string \<Rightarrow> string" where
  "int_strip s = rev (dropWhile is_int_space (rev (dropWhile is_int_space s)))"

text \<open>
  \<^verbatim>\<open>int(s)\<close> on a string: white space around, an optional sign, the digits.
  \<open>None\<close> stands for the \<^verbatim>\<open>ValueError\<close>. The interpreter's configurable cap on
  the number of digits is not modelled.
\<close>

definition int_of_str :: "string \<Rightarrow> int option" where
  "int_of_str s =
     (case int_strip s of
        [] \<Rightarrow> None
      | c # cs \<Rightarrow>
          if c = CHR ''-'' then map_option (\<lambda>n. - int n) (parse_digits cs False 0)
          else if c = CHR ''+'' then map_option int (parse_digits cs False 0)
          else map_option int (parse_digits (c # cs) False 0))"

text \<open>\<^verbatim>\<open>int(v)\<close>; \<open>None\<close> stands for the exception (a \<^verbatim>\<open>TypeError\<close> or \<^verbatim>\<open>ValueError\<close>).\<close>

fun py_int :: "pyval \<Rightarrow> int option" where
  "py_int PNone = None"
| "py_int (PBool b) = Some (if b then 1 else 0)"
| "py_int (PInt n) = Some n"
| "py_int (PStr s) = int_of_str s"
| "py_int (PList xs) = None"
| "py_int (PDict kvs) = None"

fun digits :: "nat \<Rightarrow> string" where
  "digits n =
     (if n < 10 then [''0123456789'' ! n]
      else digits (n div 10) @ [''0123456789'' ! (n mod 10)])"

declare digits.simps [simp del]

definition hex2 :: "nat \<Rightarrow> string" where
  "hex2 n = [''0123456789abcdef'' ! (n div 16), ''0123456789abcdef'' ! (n mod 16)]"

text \<open>
  \<^verbatim>\<open>repr(s)\<close> of a string: double quotes when the string has a single quote and no
  double quote, single quotes otherwise; the backslash, the quote in use and the
  control characters are escaped.
\<close>

definition repr_char :: "char \<Rightarrow> char \<Rightarrow> string" where
  "repr_char quote c =
     (let n = (of_char c :: nat) in
      if c = quote \<or> n = 92 then [char_of (92 :: nat), c]
      else if n = 9 then [char_of (92 :: nat), CHR ''t'']
      else if n = 10 then [char_of (92 :: nat), CHR ''n'']
      else if n = 13 then [char_of (92 :: nat), CHR ''r'']
      else if n < 32 \<or> n = 127 then [char_of (92 :: nat), CHR ''x''] @ hex2 n
      else [c])"

definition repr_str :: "string \<Rightarrow> string" where
  "repr_str s =
     (let quote = (if char_of (39 :: nat) \<in> set s \<and> char_of (34 :: nat) \<notin> set s
                   then char_of (34 :: nat) else char_of (39 :: nat))
      in [quote] @ concat (map (repr_char quote) s) @ [quote])"

fun join :: "string \<Rightarrow> string list \<Rightarrow> string" where
  "join sep [] = []"
| "join sep [x] = x"
| "join sep (x # y # ys) = x @ sep @ join sep (y # ys)"

fun py_repr :: "pyval \<Rightarrow> string" where
  "py_repr PNone = ''None''"
| "py_repr (PBool b) = (if b then ''True'' else ''False'')"
| "py_repr (PInt n) = (if n < 0 then ''-'' @ digits (nat (- n)) else digits (nat n))"
| "py_repr (PStr s) = repr_str s"
| "py_repr (PList xs) = ''['' @ join '', '' (map py_repr xs) @ '']''"
| "py_repr (PDict kvs) =
     ''{'' @ join '', '' (map (\<lambda>(k, v). repr_str k @ '': '' @ py_repr v) kvs) @ ''}''"

text \<open>\<^verbatim>\<open>str(v)\<close>: a string is itself, every other value prints as its \<^verbatim>\<open>repr\<close>.\<close>

definition py_str :: "pyval \<Rightarrow> string" where
  "py_str v = (case v of PStr s \<Rightarrow> s | _ \<Rightarrow> py_repr v)"

section \<open>Configuration\<close>

definition MAX_HITS :: nat where
  "MAX_HITS = 5"

definition DEEP_CHECK :: nat where
  "DEEP_CHECK = 3"

section \<open>The remote database\<close>

text \<open>
  The four requests of the web client. A request either raises (\<open>None\<close>; the
  script catches \<^verbatim>\<open>Exception\<close> around every one) or yields its rows. The client
  is a parameter of every function below, in place of the module's global client
  objects.
\<close>

record api =
  molecule_filter_iexact :: "string \<Rightarrow> pydict list option"
  molecule_search :: "string \<Rightarrow> pydict list option"
  molecule_get :: "pyval \<Rightarrow> pydict option"
  mechanism_filter :: "pyval \<Rightarrow> pydict list option"

text \<open>
  Every function that talks to the database returns, beside its value, the requests it
  made, in order. \<^verbatim>\<open>time.sleep\<close> changes no value and is left out.
\<close>

datatype call =
    Filter_iexact string
  | Search string
  | Get pyval
  | Mechanisms pyval

section \<open>Helpers\<close>

text \<open>\<^verbatim>\<open>pref_name_exact\<close>: the first row of the exact lookup, \<open>None\<close> without one.\<close>

definition pref_name_exact :: "api \<Rightarrow> string \<Rightarrow> call list \<times> pydict option" where
  "pref_name_exact a name =
     ([Filter_iexact name],
      case molecule_filter_iexact a name of
        None \<Rightarrow> None
      | Some [] \<Rightarrow> None
      | Some (r # rs) \<Rightarrow> Some r)"

text \<open>\<^verbatim>\<open>limited_text_search\<close>: the rows with index below \<open>MAX_HITS\<close>.\<close>

definition limited_text_search :: "api \<Rightarrow> string \<Rightarrow> call list \<times> pydict list" where
  "limited_text_search a name =
     ([Search name],
      case molecule_search a name of
        None \<Rightarrow> []
      | Some res \<Rightarrow> take MAX_HITS res)"

subsection \<open>Ranking\<close>

text \<open>
  The inner function \<^verbatim>\<open>score\<close> of \<^verbatim>\<open>choose_best_candidate\<close>. The conversion of
  \<^verbatim>\<open>max_phase\<close> sits in a \<^verbatim>\<open>try\<close> block: when it raises, the score stays as it is.
\<close>

definition score :: "string \<Rightarrow> pydict \<Rightarrow> error + int" where
  "score query_name c =
     (case lower_strip (py_or (dget c ''pref_name'') (PStr [])) of
        Inl e \<Rightarrow> Inl e
      | Inr pref \<Rightarrow>
          let q = strip (lower query_name);
              s1 = (if pref = q then 200 else 0);
              s2 = (if py_in q pref \<or> py_in pref q then s1 + 20 else s1);
              mp = dget c ''max_phase''
          in Inr (if mp \<noteq> PNone
                  then (case py_int mp of None \<Rightarrow> s2 | Some n \<Rightarrow> s2 + n * 5)
                  else s2))"

text \<open>The keys of all candidates, computed in order; the first exception ends it.\<close>

fun score_all :: "string \<Rightarrow> pydict list \<Rightarrow> error + int list" where
  "score_all query_name [] = Inr []"
| "score_all query_name (c # cs) =
     (case score query_name c of
        Inl e \<Rightarrow> Inl e
      | Inr s \<Rightarrow> (case score_all query_name cs of Inl e \<Rightarrow> Inl e | Inr ss \<Rightarrow> Inr (s # ss)))"

text \<open>
  \<^verbatim>\<open>sorted(candidates, key=score, reverse=True)\<close>: a stable sort on the keys in
  descending order, that is, the library's stable insertion sort on the negated keys.
\<close>

definition ranked :: "string \<Rightarrow> pydict list \<Rightarrow> error + pydict list" where
  "ranked query_name candidates =
     (case score_all query_name candidates of
        Inl e \<Rightarrow> Inl e
      | Inr ss \<Rightarrow> Inr (map snd (sort_key (\<lambda>p. - fst p) (zip ss candidates))))"

subsection \<open>Deep verification\<close>

text \<open>
  One round of the loop over \<^verbatim>\<open>molecule_synonyms\<close>: the string of the entry,
  added to \<open>names\<close> in lower case and stripped when it is not empty.
\<close>

definition add_synonym :: "pyval \<Rightarrow> string set \<Rightarrow> error + string set" where
  "add_synonym syn names =
     (case syn of
        PDict d \<Rightarrow>
          (let s = py_or (py_or (dget d ''synonyms'') (dget d ''molecule_synonym'')) (PStr [])
           in if truthy s
              then (case lower_strip s of Inl e \<Rightarrow> Inl e | Inr n \<Rightarrow> Inr (insert n names))
              else Inr names)
      | _ \<Rightarrow>
          (let s = py_str syn
           in if s \<noteq> [] then Inr (insert (strip (lower s)) names) else Inr names))"

fun add_synonyms :: "pyval list \<Rightarrow> string set \<Rightarrow> error + string set" where
  "add_synonyms [] names = Inr names"
| "add_synonyms (syn # syns) names =
     (case add_synonym syn names of
        Inl e \<Rightarrow> Inl e
      | Inr names' \<Rightarrow> add_synonyms syns names')"

text \<open>
  What a \<^verbatim>\<open>for\<close> loop runs over: the elements of a list, the characters of a
  string, the keys of a dict; no other value can be iterated.
\<close>

fun py_iter :: "pyval \<Rightarrow> error + pyval list" where
  "py_iter (PList xs) = Inr xs"
| "py_iter (PStr s) = Inr (map (\<lambda>c. PStr [c]) s)"
| "py_iter (PDict kvs) = Inr (map (\<lambda>kv. PStr (fst kv)) kvs)"
| "py_iter v = Inl TypeError"

text \<open>The set \<open>names\<close> of a full record: its preferred name and its synonyms.\<close>

definition names_of :: "pydict \<Rightarrow> error + string set" where
  "names_of full =
     (case lower_strip (py_or (dget full ''pref_name'') (PStr [])) of
        Inl e \<Rightarrow> Inl e
      | Inr pref \<Rightarrow>
          (case py_iter (py_or (dget full ''molecule_synonyms'') (PList [])) of
             Inl e \<Rightarrow> Inl e
           | Inr syns \<Rightarrow> add_synonyms syns {pref}))"

text \<open>
  The loop over \<^verbatim>\<open>ranked[:DEEP_CHECK]\<close>, with the return after it: \<open>rank0\<close> is
  \<^verbatim>\<open>ranked[0]\<close>. A failed fetch goes on with the next candidate.
\<close>

fun deep_check :: "api \<Rightarrow> string \<Rightarrow> pydict \<Rightarrow> pydict list \<Rightarrow> call list \<times> (error + pyval)" where
  "deep_check a query_name rank0 [] = ([], Inr (dget rank0 ''molecule_chembl_id''))"
| "deep_check a query_name rank0 (c # cs) =
     (let chembl_id = dget c ''molecule_chembl_id'' in
      case molecule_get a chembl_id of
        None \<Rightarrow>
          (case deep_check a query_name rank0 cs of (t, r) \<Rightarrow> (Get chembl_id # t, r))
      | Some full \<Rightarrow>
          (case names_of full of
             Inl e \<Rightarrow> ([Get chembl_id], Inl e)
           | Inr names \<Rightarrow>
               (let q = strip (lower query_name) in
                case split_first q of
                  Inl e \<Rightarrow> ([Get chembl_id], Inl e)
                | Inr q_simplified \<Rightarrow>
                    if q \<in> names \<or> q_simplified \<in> names
                    then ([Get chembl_id], Inr chembl_id)
                    else (case deep_check a query_name rank0 cs of
                            (t, r) \<Rightarrow> (Get chembl_id # t, r)))))"

text \<open>\<^verbatim>\<open>choose_best_candidate\<close>\<close>

definition choose_best_candidate ::
    "api \<Rightarrow> pydict list \<Rightarrow> string \<Rightarrow> call list \<times> (error + pyval)" where
  "choose_best_candidate a candidates query_name =
     (if candidates = [] then ([], Inr PNone)
      else (case ranked query_name candidates of
              Inl e \<Rightarrow> ([], Inl e)
            | Inr rs \<Rightarrow> deep_check a query_name (hd rs) (take DEEP_CHECK rs)))"

subsection \<open>Structure and mechanism data\<close>

text \<open>
  \<^verbatim>\<open>fetch_molecule_data\<close>: the triple \<open>(smiles, inchi_key, mol_type)\<close>. Only the
  fetch is inside the \<^verbatim>\<open>try\<close> block; \<^verbatim>\<open>struct.get\<close> needs a dict.
\<close>

definition fetch_molecule_data ::
    "api \<Rightarrow> pyval \<Rightarrow> call list \<times> (error + pyval \<times> pyval \<times> pyval)" where
  "fetch_molecule_data a chembl_id =
     ([Get chembl_id],
      case molecule_get a chembl_id of
        None \<Rightarrow> Inr (PNone, PNone, PNone)
      | Some mol \<Rightarrow>
          (let mol_type = dget mol ''molecule_type'' in
           case py_or (dget mol ''molecule_structures'') (PDict []) of
             PDict struct \<Rightarrow>
               Inr (dget struct ''canonical_smiles'', dget struct ''standard_inchi_key'', mol_type)
           | _ \<Rightarrow> Inl AttributeError))"

text \<open>\<^verbatim>\<open>fetch_targets\<close>: one dict of six keys for each mechanism row.\<close>

definition target_row :: "pyval \<Rightarrow> pydict \<Rightarrow> pydict" where
  "target_row chembl_id m =
     [(''molecule_chembl_id'', chembl_id),
      (''target_chembl_id'', dget m ''target_chembl_id''),
      (''target_pref_name'', dget m ''target_pref_name''),
      (''target_organism'', dget m ''target_organism''),
      (''action_type'', dget m ''action_type''),
      (''mechanism_of_action'', dget m ''mechanism_of_action'')]"

definition fetch_targets :: "api \<Rightarrow> pyval \<Rightarrow> call list \<times> pydict list" where
  "fetch_targets a chembl_id =
     ([Mechanisms chembl_id],
      case mechanism_filter a chembl_id of
        None \<Rightarrow> []
      | Some mechs \<Rightarrow> map (target_row chembl_id) mechs)"

section \<open>The main loop\<close>

text \<open>The dict appended to \<^verbatim>\<open>meta_records\<close>.\<close>

definition meta_row :: "string \<Rightarrow> pyval \<Rightarrow> pyval \<Rightarrow> pyval \<Rightarrow> pyval \<Rightarrow> string \<Rightarrow> pydict" where
  "meta_row name chembl_id smiles inchi_key mol_type status =
     [(''query_name'', PStr name),
      (''chembl_id'', chembl_id),
      (''smiles'', smiles),
      (''inchi_key'', inchi_key),
      (''molecule_type'', mol_type),
      (''status'', PStr status)]"

text \<open>
  The candidates of a name: the exact match alone when the lookup gave a record that
  tests true, the bounded text search otherwise.
\<close>

definition find_candidates :: "api \<Rightarrow> string \<Rightarrow> call list \<times> pydict list" where
  "find_candidates a name =
     (case pref_name_exact a name of
        (t1, candidate) \<Rightarrow>
          (case candidate of
             None \<Rightarrow> (case limited_text_search a name of (t2, cs) \<Rightarrow> (t1 @ t2, cs))
           | Some c \<Rightarrow>
               if truthy (PDict c) then (t1, [c])
               else (case limited_text_search a name of (t2, cs) \<Rightarrow> (t1 @ t2, cs))))"

text \<open>
  \<^verbatim>\<open>is_small = mol_type and mol_type.lower() == "small molecule" and smiles\<close>:
  the value of the chain of \<^verbatim>\<open>and\<close>, which is the first operand that tests false,
  or the last operand.
\<close>

definition is_small_of :: "pyval \<Rightarrow> pyval \<Rightarrow> error + pyval" where
  "is_small_of mol_type smiles =
     (if \<not> truthy mol_type then Inr mol_type
      else (case mol_type of
              PStr s \<Rightarrow> if lower s = ''small molecule'' then Inr smiles else Inr (PBool False)
            | _ \<Rightarrow> Inl AttributeError))"

text \<open>
  The rest of the loop body, once the identifier is chosen and tests true: the
  metadata row, and the target rows of a small molecule.
\<close>

definition record_molecule ::
    "api \<Rightarrow> string \<Rightarrow> pyval \<Rightarrow> pydict list \<times> pydict list
       \<Rightarrow> call list \<times> (error + pydict list \<times> pydict list)" where
  "record_molecule a name chembl_id st =
     (case st of (meta_records, target_records) \<Rightarrow>
      (case fetch_molecule_data a chembl_id of
         (t1, Inl e) \<Rightarrow> (t1, Inl e)
       | (t1, Inr (smiles, inchi_key, mol_type)) \<Rightarrow>
           (case is_small_of mol_type smiles of
              Inl e \<Rightarrow> (t1, Inl e)
            | Inr is_small \<Rightarrow>
                (let status = (if truthy is_small then ''ok'' else ''non_small_or_no_smiles'');
                     meta_records' =
                       meta_records @ [meta_row name chembl_id smiles inchi_key mol_type status]
                 in if truthy is_small
                    then (case fetch_targets a chembl_id of
                            (t2, targets) \<Rightarrow>
                              (t1 @ t2,
                               Inr (meta_records',
                                    target_records
                                      @ map (\<lambda>t. t @ [(''query_name'', PStr name)]) targets)))
                    else (t1, Inr (meta_records', target_records))))))"

text \<open>One round of the loop over \<^verbatim>\<open>names\<close>.\<close>

definition process_name ::
    "api \<Rightarrow> string \<Rightarrow> pydict list \<times> pydict list
       \<Rightarrow> call list \<times> (error + pydict list \<times> pydict list)" where
  "process_name a raw st =
     (case st of (meta_records, target_records) \<Rightarrow>
      (let name = strip raw in
       if name = [] then ([], Inr st)
       else
         (case find_candidates a name of
            (t1, candidates) \<Rightarrow>
              if candidates = []
              then (t1, Inr (meta_records @ [meta_row name PNone PNone PNone PNone ''no_hit''],
                             target_records))
              else
                (case choose_best_candidate a candidates name of
                   (t2, Inl e) \<Rightarrow> (t1 @ t2, Inl e)
                 | (t2, Inr chembl_id) \<Rightarrow>
                     if \<not> truthy chembl_id
                     then (t1 @ t2,
                           Inr (meta_records
                                  @ [meta_row name PNone PNone PNone PNone ''no_candidate''],
                                target_records))
                     else (case record_molecule a name chembl_id st of
                             (t3, r) \<Rightarrow> (t1 @ t2 @ t3, r))))))"

fun main_loop ::
    "api \<Rightarrow> string list \<Rightarrow> pydict list \<times> pydict list
       \<Rightarrow> call list \<times> (error + pydict list \<times> pydict list)" where
  "main_loop a [] st = ([], Inr st)"
| "main_loop a (name # names) st =
     (case process_name a name st of
        (t1, Inl e) \<Rightarrow> (t1, Inl e)
      | (t1, Inr st') \<Rightarrow> (case main_loop a names st' of (t2, r) \<Rightarrow> (t1 @ t2, r)))"

subsection \<open>The input table\<close>

text \<open>
  The data frame read from the input file: its columns by name, each a list of cells. A
  cell is its text, or \<open>None\<close> when it is missing. \<^verbatim>\<open>dropna\<close> removes the missing
  cells and \<^verbatim>\<open>unique\<close> keeps the first occurrence of every value, in order of
  appearance.
\<close>

type_synonym dataframe = "(string \<times> string option list) list"

fun dropna :: "'a option list \<Rightarrow> 'a list" where
  "dropna [] = []"
| "dropna (None # xs) = dropna xs"
| "dropna (Some x # xs) = x # dropna xs"

fun unique_from :: "'a list \<Rightarrow> 'a list \<Rightarrow> 'a list" where
  "unique_from seen [] = []"
| "unique_from seen (x # xs) =
     (if x \<in> set seen then unique_from seen xs else x # unique_from (x # seen) xs)"

definition unique :: "'a list \<Rightarrow> 'a list" where
  "unique xs = unique_from [] xs"

text \<open>
  The end of the script, after the two tables are written: the numbers of the summary
  that is printed, \<open>ok_count\<close> and \<open>skipped\<close>. A frame built from no record has no
  column at all, so \<^verbatim>\<open>meta_df["status"]\<close> raises \<^verbatim>\<open>KeyError\<close> when \<open>meta_records\<close> is
  empty.
\<close>

definition summary :: "pydict list \<Rightarrow> error + nat \<times> nat" where
  "summary meta_records =
     (if meta_records = [] then Inl KeyError
      else (let ok_count = length (filter (\<lambda>r. dget r ''status'' = PStr ''ok'') meta_records);
                skipped = length meta_records - ok_count
            in Inr (ok_count, skipped)))"

text \<open>
  The script from the check of the column to its last line. A run yields the requests
  made, the two tables written (the metadata rows and the target rows; nothing is
  written when the run ends before), and how it ends: with an exception, or with the
  numbers of the summary.
\<close>

definition main ::
    "dataframe \<Rightarrow> api
       \<Rightarrow> call list \<times> (pydict list \<times> pydict list) option \<times> (error + nat \<times> nat)" where
  "main df a =
     (case map_of df ''Name'' of
        None \<Rightarrow> ([], None, Inl ValueError)
      | Some col \<Rightarrow>
          (case main_loop a (unique (dropna col)) ([], []) of
             (t, Inl e) \<Rightarrow> (t, None, Inl e)
           | (t, Inr (meta_records, target_records)) \<Rightarrow>
               (t, Some (meta_records, target_records), summary meta_records)))"

section \<open>Example databases\<close>

text \<open>Small databases on which the theorems below are evaluated.\<close>

definition api_down :: api where
  "api_down =
     \<lparr>molecule_filter_iexact = (\<lambda>name. None),
      molecule_search = (\<lambda>name. None),
      molecule_get = (\<lambda>chembl_id. None),
      mechanism_filter = (\<lambda>chembl_id. None)\<rparr>"

definition hit :: "string \<Rightarrow> string \<Rightarrow> int \<Rightarrow> pydict" where
  "hit chembl_id pref mp =
     [(''molecule_chembl_id'', PStr chembl_id), (''pref_name'', PStr pref), (''max_phase'', PInt mp)]"


text \<open>An exact lookup that answers with a record without fields, and a search with seven rows.\<close>

definition api_blank_record :: api where
  "api_blank_record =
     \<lparr>molecule_filter_iexact = (\<lambda>name. Some [[]]),
      molecule_search =
        (\<lambda>name. Some (map (\<lambda>n. hit ''CHEMBL521'' ''IBUPROFEN'' n) [0, 1, 2, 3, 4, 5, 6])),
      molecule_get = (\<lambda>chembl_id. None),
      mechanism_filter = (\<lambda>chembl_id. None)\<rparr>"

section \<open>Records of the expected shape\<close>

text \<open>
  The script calls string methods on fields without looking at their type. A field
  that holds a string, or any value that tests false (which \<^verbatim>\<open>or\<close> replaces by the
  default), raises nothing.
\<close>

definition str_or_false :: "pyval \<Rightarrow> bool" where
  "str_or_false v = (case v of PStr s \<Rightarrow> True | _ \<Rightarrow> \<not> truthy v)"

definition wf_candidate :: "pydict \<Rightarrow> bool" where
  "wf_candidate c = str_or_false (dget c ''pref_name'')"

section \<open>The ranking in the words of the specification\<close>

text \<open>Strings are compared after lower-casing and stripping.\<close>

definition normalized :: "string \<Rightarrow> string" where
  "normalized s = strip (lower s)"

text \<open>The normalized preferred name of a record; it is empty when the record has none.\<close>

definition preferred_name :: "pydict \<Rightarrow> string" where
  "preferred_name c = (case dget c ''pref_name'' of PStr s \<Rightarrow> normalized s | _ \<Rightarrow> [])"

text \<open>
  A string writes an integer when, without the blanks around it, it is an optional sign
  followed by groups of digits, with one underscore between a group and the next. The
  integer is the number that its digits write in base ten.
\<close>

fun split_on :: "char \<Rightarrow> string \<Rightarrow> string list" where
  "split_on sep [] = [[]]"
| "split_on sep (c # cs) =
     (if c = sep then [] # split_on sep cs
      else (case split_on sep cs of [] \<Rightarrow> [[c]] | g # gs \<Rightarrow> (c # g) # gs))"

definition digit_groups :: "string \<Rightarrow> bool" where
  "digit_groups s = list_all (\<lambda>g. g \<noteq> [] \<and> list_all is_digit g) (split_on CHR ''_'' s)"

definition base_ten :: "string \<Rightarrow> nat" where
  "base_ten s = foldl (\<lambda>n c. 10 * n + digit_val c) 0 (filter is_digit s)"

definition written_integer :: "string \<Rightarrow> int option" where
  "written_integer s =
     (case int_strip s of
        [] \<Rightarrow> None
      | c # cs \<Rightarrow>
          (let ds = (if c = CHR ''-'' \<or> c = CHR ''+'' then cs else c # cs)
           in if digit_groups ds
              then Some (if c = CHR ''-'' then - int (base_ten ds) else int (base_ten ds))
              else None))"

text \<open>
  The development phase read as an integer: an integer is itself (a truth value counts
  as 1 or 0), a string counts when it writes an integer, and everything else, like a
  missing phase, is 0. The string \<open>4.0\<close> writes no integer.
\<close>

definition phase :: "pydict \<Rightarrow> int" where
  "phase c =
     (case dget c ''max_phase'' of
        PInt n \<Rightarrow> n
      | PBool b \<Rightarrow> (if b then 1 else 0)
      | PStr s \<Rightarrow> (case written_integer s of None \<Rightarrow> 0 | Some n \<Rightarrow> n)
      | _ \<Rightarrow> 0)"

text \<open>
  200 for equal names, 20 more when one name contains the other, and five times the
  phase.
\<close>

definition spec_score :: "string \<Rightarrow> pydict \<Rightarrow> int" where
  "spec_score query_name c =
     (if preferred_name c = normalized query_name then 200 else 0)
     + (if sublist (normalized query_name) (preferred_name c)
           \<or> sublist (preferred_name c) (normalized query_name) then 20 else 0)
     + 5 * phase c"

text \<open>
  A synonym entry that is a dict holds its string under \<^verbatim>\<open>synonyms\<close> or
  \<^verbatim>\<open>molecule_synonym\<close>; a full record holds a list of entries (or nothing), and is
  fetched for its names by the deep verification.
\<close>

definition wf_synonym :: "pyval \<Rightarrow> bool" where
  "wf_synonym syn =
     (case syn of
        PDict d \<Rightarrow> str_or_false (py_or (dget d ''synonyms'') (dget d ''molecule_synonym''))
      | _ \<Rightarrow> True)"

definition wf_names :: "pydict \<Rightarrow> bool" where
  "wf_names full =
     (str_or_false (dget full ''pref_name'')
      \<and> (case dget full ''molecule_synonyms'' of
            PList syns \<Rightarrow> list_all wf_synonym syns
          | v \<Rightarrow> \<not> truthy v))"

section \<open>The deep verification in the words of the specification\<close>

text \<open>
  The entries of a full record, and the synonym string of an entry: an entry that is a
  string is the synonym itself, an entry that is a dict holds it under \<^verbatim>\<open>synonyms\<close>
  or \<^verbatim>\<open>molecule_synonym\<close>.
\<close>

definition synonym_entries :: "pydict \<Rightarrow> pyval list" where
  "synonym_entries full = (case dget full ''molecule_synonyms'' of PList syns \<Rightarrow> syns | _ \<Rightarrow> [])"





definition first_token :: "string \<Rightarrow> string" where
  "first_token s = takeWhile (\<lambda>c. \<not> is_space c) (dropWhile is_space s)"



text \<open>
  A database that knows aspirin under its chemical name, with \<open>aspirin\<close> among the
  synonyms, and ibuprofen by exact lookup only; the record of ibuprofen cannot be
  fetched. One more record has a name and no identifier.
\<close>

definition full_aspirin :: pydict where
  "full_aspirin =
     [(''molecule_chembl_id'', PStr ''CHEMBL25''),
      (''pref_name'', PStr ''ACETYLSALICYLIC ACID''),
      (''max_phase'', PInt 4),
      (''molecule_type'', PStr ''Small molecule''),
      (''molecule_structures'',
         PDict [(''canonical_smiles'', PStr ''CC(=O)Oc1ccccc1C(=O)O''),
                (''standard_inchi_key'', PStr ''BSYNRYMUTXBXSQ-UHFFFAOYSA-N'')]),
      (''molecule_synonyms'',
         PList [PDict [(''molecule_synonym'', PStr ''Aspirin''), (''syn_type'', PStr ''INN''),
                       (''synonyms'', PStr ''ASPIRIN'')],
                PDict [(''molecule_synonym'', PStr ''Acetylsalicylic acid''),
                       (''syn_type'', PStr ''OTHER''), (''synonyms'', PNone)]])]"

definition mechanism_cox :: pydict where
  "mechanism_cox =
     [(''molecule_chembl_id'', PStr ''CHEMBL25''),
      (''target_chembl_id'', PStr ''CHEMBL2094253''),
      (''action_type'', PStr ''INHIBITOR''),
      (''mechanism_of_action'', PStr ''Cyclooxygenase inhibitor'')]"

definition api_aspirin :: api where
  "api_aspirin =
     \<lparr>molecule_filter_iexact =
        (\<lambda>name. if lower name = ''ibuprofen'' then Some [hit ''CHEMBL521'' ''IBUPROFEN'' 4]
                 else if lower name = ''nameless'' then Some [[(''pref_name'', PStr ''NAMELESS'')]]
                 else Some []),
      molecule_search =
        (\<lambda>name. if lower name = ''aspirin''
                 then Some [hit ''CHEMBL1'' ''ASPIRIN EUGENOL ESTER'' 0,
                            hit ''CHEMBL25'' ''ACETYLSALICYLIC ACID'' 4]
                 else None),
      molecule_get = (\<lambda>chembl_id. if chembl_id = PStr ''CHEMBL25'' then Some full_aspirin else None),
      mechanism_filter =
        (\<lambda>chembl_id. if chembl_id = PStr ''CHEMBL25'' then Some [mechanism_cox] else None)\<rparr>"

text \<open>
  A full record is also fetched for its structure: the molecule type is a string (or
  nothing) and the structures are a dict (or nothing).
\<close>

definition wf_structure :: "pydict \<Rightarrow> bool" where
  "wf_structure mol =
     (str_or_false (dget mol ''molecule_type'')
      \<and> (case dget mol ''molecule_structures'' of PDict d \<Rightarrow> True | v \<Rightarrow> \<not> truthy v))"

text \<open>A database all of whose answers have the expected shape; any request may fail.\<close>

definition wf_api :: "api \<Rightarrow> bool" where
  "wf_api a =
     ((\<forall>name rows. molecule_filter_iexact a name = Some rows \<longrightarrow> list_all wf_candidate rows)
      \<and> (\<forall>name rows. molecule_search a name = Some rows \<longrightarrow> list_all wf_candidate rows)
      \<and> (\<forall>i mol. molecule_get a i = Some mol \<longrightarrow> wf_names mol \<and> wf_structure mol))"

section \<open>The loop body in the words of the specification\<close>

text \<open>
  What one query name yields: the candidates found, the identifier chosen among them,
  and the structure fields fetched for it.
\<close>

definition candidates_of :: "api \<Rightarrow> string \<Rightarrow> pydict list" where
  "candidates_of a name = snd (find_candidates a name)"

definition chosen :: "api \<Rightarrow> string \<Rightarrow> pyval" where
  "chosen a name =
     (case snd (choose_best_candidate a (candidates_of a name) name) of
        Inl e \<Rightarrow> PNone
      | Inr chembl_id \<Rightarrow> chembl_id)"

definition fetched :: "api \<Rightarrow> string \<Rightarrow> pyval \<times> pyval \<times> pyval" where
  "fetched a name =
     (case snd (fetch_molecule_data a (chosen a name)) of
        Inl e \<Rightarrow> (PNone, PNone, PNone)
      | Inr x \<Rightarrow> x)"

text \<open>The molecule type equals \<open>small molecule\<close>, whatever the case of its letters.\<close>

definition small_molecule :: "pyval \<Rightarrow> bool" where
  "small_molecule mol_type = (case mol_type of PStr s \<Rightarrow> lower s = ''small molecule'' | _ \<Rightarrow> False)"

text \<open>
  The status: \<open>no_hit\<close> without candidates, \<open>no_candidate\<close> when the ranking gives no
  usable identifier, \<open>ok\<close> for a small molecule whose SMILES tests true, and
  \<open>non_small_or_no_smiles\<close> otherwise.
\<close>

definition spec_status :: "api \<Rightarrow> string \<Rightarrow> string" where
  "spec_status a name =
     (if candidates_of a name = [] then ''no_hit''
      else if \<not> truthy (chosen a name) then ''no_candidate''
      else (case fetched a name of
              (smiles, inchi_key, mol_type) \<Rightarrow>
                if small_molecule mol_type \<and> truthy smiles then ''ok''
                else ''non_small_or_no_smiles''))"

text \<open>The metadata row of a name, and its target rows: the mechanisms of an \<open>ok\<close> molecule.\<close>

definition spec_row :: "api \<Rightarrow> string \<Rightarrow> pydict" where
  "spec_row a name =
     (if candidates_of a name = [] \<or> \<not> truthy (chosen a name)
      then meta_row name PNone PNone PNone PNone (spec_status a name)
      else (case fetched a name of
              (smiles, inchi_key, mol_type) \<Rightarrow>
                meta_row name (chosen a name) smiles inchi_key mol_type (spec_status a name)))"

definition spec_targets :: "api \<Rightarrow> string \<Rightarrow> pydict list" where
  "spec_targets a name =
     (if spec_status a name = ''ok''
      then map (\<lambda>t. t @ [(''query_name'', PStr name)]) (snd (fetch_targets a (chosen a name)))
      else [])"

text \<open>The names that the loop processes: stripped, the empty ones left out.\<close>

definition processed :: "string list \<Rightarrow> string list" where
  "processed names = filter (\<lambda>n. n \<noteq> []) (map strip names)"

text \<open>An input table: a missing cell, a blank cell, a name twice, and an unknown name.\<close>

definition df_example :: dataframe where
  "df_example =
     [(''Name'', [Some ''Aspirin'', None, Some ''  '', Some ''Ibuprofen'', Some ''Aspirin'',
                  Some ''Nameless'', Some '' Unknown ''])]"

text \<open>A database whose record of aspirin is a small molecule with an empty SMILES string.\<close>

definition api_empty_smiles :: api where
  "api_empty_smiles =
     \<lparr>molecule_filter_iexact = (\<lambda>name. Some [hit ''CHEMBL25'' ''ASPIRIN'' 4]),
      molecule_search = (\<lambda>name. None),
      molecule_get =
        (\<lambda>chembl_id. Some [(''molecule_chembl_id'', PStr ''CHEMBL25''),
                            (''pref_name'', PStr ''ASPIRIN''),
                            (''molecule_type'', PStr ''Small molecule''),
                            (''molecule_structures'',
                               PDict [(''canonical_smiles'', PStr []),
                                      (''standard_inchi_key'', PNone)])]),
      mechanism_filter = (\<lambda>chembl_id. Some [])\<rparr>"

text \<open>What the script does on this table with the database of aspirin.\<close>

definition example_calls :: "call list" where
  "example_calls =
     [Filter_iexact ''Aspirin'', Search ''Aspirin'', Get (PStr ''CHEMBL1''),
      Get (PStr ''CHEMBL25''), Get (PStr ''CHEMBL25''), Mechanisms (PStr ''CHEMBL25''),
      Filter_iexact ''Ibuprofen'', Get (PStr ''CHEMBL521''), Get (PStr ''CHEMBL521''),
      Filter_iexact ''Nameless'', Get PNone,
      Filter_iexact ''Unknown'', Search ''Unknown'']"

definition example_meta :: "pydict list" where
  "example_meta =
     [meta_row ''Aspirin'' (PStr ''CHEMBL25'') (PStr ''CC(=O)Oc1ccccc1C(=O)O'')
        (PStr ''BSYNRYMUTXBXSQ-UHFFFAOYSA-N'') (PStr ''Small molecule'') ''ok'',
      meta_row ''Ibuprofen'' (PStr ''CHEMBL521'') PNone PNone PNone ''non_small_or_no_smiles'',
      meta_row ''Nameless'' PNone PNone PNone PNone ''no_candidate'',
      meta_row ''Unknown'' PNone PNone PNone PNone ''no_hit'']"

definition example_targets :: "pydict list" where
  "example_targets =
     [target_row (PStr ''CHEMBL25'') mechanism_cox @ [(''query_name'', PStr ''Aspirin'')]]"


section \<open>Two runs\<close>

text \<open>
  What the database answers to a request. Two databases give the same responses to a
  run when they answer every request of the run alike.
\<close>

datatype reply = Rows "pydict list option" | Row "pydict option"

fun respond :: "api \<Rightarrow> call \<Rightarrow> reply" where
  "respond a (Filter_iexact name) = Rows (molecule_filter_iexact a name)"
| "respond a (Search name) = Rows (molecule_search a name)"
| "respond a (Get chembl_id) = Row (molecule_get a chembl_id)"
| "respond a (Mechanisms chembl_id) = Rows (mechanism_filter a chembl_id)"

definition same_responses :: "api \<Rightarrow> api \<Rightarrow> call list \<Rightarrow> bool" where
  "same_responses a b calls = list_all (\<lambda>c. respond b c = respond a c) calls"

text \<open>
  The database of aspirin, changed where the example run does not look: it has no
  mechanisms for other molecules, instead of failing.
\<close>

definition api_aspirin_later :: api where
  "api_aspirin_later =
     api_aspirin
       \<lparr>mechanism_filter :=
          (\<lambda>chembl_id. if chembl_id = PStr ''CHEMBL25'' then Some [mechanism_cox] else Some [])\<rparr>"

section \<open>Candidate search\<close>

text \<open>
  Claim C7. The text search returns the first \<open>MAX_HITS\<close> = 5 rows of the remote search
  and no more; when the request fails, the failure is swallowed and the result is the
  empty list. The only request made is the search itself.
\<close>

theorem limited_text_search_bounded:
  "limited_text_search a name =
     ([Search name], case molecule_search a name of None \<Rightarrow> [] | Some res \<Rightarrow> take 5 res)
   \<and> length (snd (limited_text_search a name)) \<le> 5"
  by (simp add: limited_text_search_def MAX_HITS_def split: option.splits)

theorem limited_text_search_bounded_witness:
  "snd (limited_text_search api_blank_record ''ibuprofen'')
     = map (\<lambda>n. hit ''CHEMBL521'' ''IBUPROFEN'' n) [0, 1, 2, 3, 4]
   \<and> snd (limited_text_search api_down ''ibuprofen'') = []"
  using limited_text_search_bounded [of api_blank_record "''ibuprofen''"]
    limited_text_search_bounded [of api_down "''ibuprofen''"]
  by (simp add: api_blank_record_def api_down_def)

text \<open>
  Claim C6. The exact lookup returns the first row of the remote answer, so one record
  at most, and nothing when the answer is empty or the request fails. When it returns a
  record, that record alone is the candidate list and the text search is not invoked. A
  record that the lookup returns has matched on its preferred name, so it has a field:
  it is not the empty dict, which the script would take for no record.
\<close>

theorem exact_match_short_circuits:
  "snd (pref_name_exact a name)
     = (case molecule_filter_iexact a name of
          None \<Rightarrow> None
        | Some rows \<Rightarrow> (case rows of [] \<Rightarrow> None | r # rs \<Rightarrow> Some r))
   \<and> (\<forall>c. snd (pref_name_exact a name) = Some c \<and> c \<noteq> []
          \<longrightarrow> find_candidates a name = ([Filter_iexact name], [c])
              \<and> Search name \<notin> set (fst (find_candidates a name)))"
  by (auto simp: pref_name_exact_def find_candidates_def split: option.splits list.splits)

theorem exact_match_short_circuits_witness:
  "snd (pref_name_exact
          (api_down\<lparr>molecule_filter_iexact := (\<lambda>name. Some [hit ''CHEMBL521'' ''IBUPROFEN'' 4])\<rparr>)
          ''Ibuprofen'')
     = Some (hit ''CHEMBL521'' ''IBUPROFEN'' 4)
   \<and> hit ''CHEMBL521'' ''IBUPROFEN'' 4 \<noteq> []
   \<and> find_candidates
        (api_down\<lparr>molecule_filter_iexact := (\<lambda>name. Some [hit ''CHEMBL521'' ''IBUPROFEN'' 4])\<rparr>)
        ''Ibuprofen''
      = ([Filter_iexact ''Ibuprofen''], [hit ''CHEMBL521'' ''IBUPROFEN'' 4])"
  using exact_match_short_circuits
    [of "api_down\<lparr>molecule_filter_iexact := (\<lambda>name. Some [hit ''CHEMBL521'' ''IBUPROFEN'' 4])\<rparr>"
        "''Ibuprofen''"]
  by (simp add: pref_name_exact_def hit_def)

section \<open>Ranking\<close>

lemma py_in_sublist: "py_in xs ys = sublist xs ys"
  by (induction ys) (auto simp: sublist_Cons_right)

lemma lower_strip_pref:
  "str_or_false (dget c ''pref_name'')
   \<Longrightarrow> lower_strip (py_or (dget c ''pref_name'') (PStr [])) = Inr (preferred_name c)"
  by (cases "dget c ''pref_name''")
     (auto simp: str_or_false_def lower_strip_def py_or_def preferred_name_def normalized_def
        strip_def lower_def)

text \<open>What \<^verbatim>\<open>int()\<close> reads from a string is the integer that the string writes.\<close>

lemma split_on_not_Nil: "split_on sep s \<noteq> []"
  by (induction s) (auto split: list.splits)

lemma underscore_not_digit: "\<not> is_digit CHR ''_''"
  by (simp add: is_digit_def)

lemma parse_digits_groups:
  "parse_digits cs prev acc
     = (case split_on CHR ''_'' cs of
          [] \<Rightarrow> None
        | g # gs \<Rightarrow>
            if list_all is_digit g \<and> (prev \<or> g \<noteq> [])
               \<and> list_all (\<lambda>g. g \<noteq> [] \<and> list_all is_digit g) gs
            then Some (foldl (\<lambda>n c. 10 * n + digit_val c) acc (filter is_digit cs))
            else None)"
proof (induction cs arbitrary: prev acc)
  case Nil
  show ?case by simp
next
  case (Cons c cs)
  obtain g gs where sp: "split_on CHR ''_'' cs = g # gs"
    using split_on_not_Nil [of "CHR ''_''" cs] by (cases "split_on CHR ''_'' cs") auto
  show ?case
  proof (cases "c = CHR ''_''")
    case True
    then show ?thesis
      using Cons.IH [of False acc] sp underscore_not_digit by simp
  next
    case False
    then show ?thesis
      using Cons.IH [of True "10 * acc + digit_val c"] sp by auto
  qed
qed

lemma parse_digits_written:
  "parse_digits ds False 0 = (if digit_groups ds then Some (base_ten ds) else None)"
proof -
  obtain g gs where sp: "split_on CHR ''_'' ds = g # gs"
    using split_on_not_Nil [of "CHR ''_''" ds] by (cases "split_on CHR ''_'' ds") auto
  show ?thesis
    by (auto simp: parse_digits_groups sp digit_groups_def base_ten_def)
qed

lemma int_of_str_written: "int_of_str s = written_integer s"
  by (auto simp: int_of_str_def written_integer_def parse_digits_written Let_def
      split: list.splits)

lemma py_int_phase: "(case py_int (dget c ''max_phase'') of None \<Rightarrow> 0 | Some n \<Rightarrow> n) = phase c"
  by (cases "dget c ''max_phase''") (simp_all add: phase_def int_of_str_written)

lemma score_spec:
  assumes "wf_candidate c"
  shows "score q c = Inr (spec_score q c)"
proof -
  have pref: "lower_strip (py_or (dget c ''pref_name'') (PStr [])) = Inr (preferred_name c)"
    using assms by (simp add: wf_candidate_def lower_strip_pref)
  have mp: "(if dget c ''max_phase'' \<noteq> PNone
             then (case py_int (dget c ''max_phase'') of None \<Rightarrow> k | Some n \<Rightarrow> k + n * 5)
             else k) = k + 5 * phase c" for k
    using py_int_phase [of c]
    by (cases "py_int (dget c ''max_phase'')") (auto simp: phase_def)
  show ?thesis
    by (simp add: score_def pref Let_def mp spec_score_def py_in_sublist normalized_def)
qed

lemma score_all_spec:
  "list_all wf_candidate cs \<Longrightarrow> score_all q cs = Inr (map (spec_score q) cs)"
  by (induction cs) (auto simp: score_spec)

text \<open>Sorting pairs of key and element on the key is sorting the elements.\<close>

lemma sort_key_tag:
  "sort_key (\<lambda>p. f (fst p)) (map (\<lambda>c. (k c, c)) cs)
     = map (\<lambda>c. (k c, c)) (sort_key (\<lambda>c. f (k c)) cs)"
proof (induction cs)
  case Nil
  show ?case by simp
next
  case (Cons c cs)
  have ins: "insort_key (\<lambda>p. f (fst p)) (k c, c) (map (\<lambda>c. (k c, c)) ys)
               = map (\<lambda>c. (k c, c)) (insort_key (\<lambda>c. f (k c)) c ys)" for ys
    by (induction ys) auto
  show ?case by (simp add: Cons.IH ins)
qed

lemma ranked_spec:
  assumes "list_all wf_candidate cs"
  shows "ranked q cs = Inr (sort_key (\<lambda>c. - spec_score q c) cs)"
proof -
  have "zip (map (spec_score q) cs) cs = map (\<lambda>c. (spec_score q c, c)) cs"
    by (induction cs) auto
  then show ?thesis
    using assms sort_key_tag [of uminus "spec_score q" cs]
    by (simp add: ranked_def score_all_spec comp_def)
qed





text \<open>
  Claim C10. A candidate whose preferred name is missing, \<^verbatim>\<open>None\<close> or empty after
  normalization gets the containment bonus for every query name that is not blank (the
  names that the main loop passes are stripped and not empty): its key is 20 plus five
  times its integer phase.
\<close>

theorem empty_pref_name_scores_containment:
  assumes "map_of c ''pref_name'' = None \<or> map_of c ''pref_name'' = Some PNone
           \<or> (\<exists>s. map_of c ''pref_name'' = Some (PStr s) \<and> strip (lower s) = [])"
    and "strip (lower query_name) \<noteq> []"
  shows "score query_name c = Inr (20 + 5 * phase c)"
proof -
  have wf: "wf_candidate c" and pref: "preferred_name c = []"
    using assms(1)
    by (auto simp: wf_candidate_def str_or_false_def dget_def preferred_name_def normalized_def)
  show ?thesis
    using assms(2) by (simp add: score_spec [OF wf] spec_score_def pref normalized_def)
qed

theorem empty_pref_name_scores_containment_witness:
  "map_of [(''molecule_chembl_id'', PStr ''CHEMBL9''), (''max_phase'', PStr ''3'')] ''pref_name'' = None
   \<and> strip (lower ''Aspirin'') \<noteq> []
   \<and> score ''Aspirin'' [(''molecule_chembl_id'', PStr ''CHEMBL9''), (''max_phase'', PStr ''3'')]
       = Inr 35
   \<and> score ''Aspirin'' [(''pref_name'', PNone), (''max_phase'', PInt 2)] = Inr 30
   \<and> score ''Aspirin'' [(''pref_name'', PStr ''  ''), (''max_phase'', PStr ''4.0'')] = Inr 20"
proof -
  have q: "strip (lower ''Aspirin'') \<noteq> []"
    by code_simp
  have p1: "phase [(''molecule_chembl_id'', PStr ''CHEMBL9''), (''max_phase'', PStr ''3'')] = 3"
    by code_simp
  have p2: "phase [(''pref_name'', PNone), (''max_phase'', PInt 2)] = 2"
    by code_simp
  have p3: "phase [(''pref_name'', PStr ''  ''), (''max_phase'', PStr ''4.0'')] = 0"
    by code_simp
  have b: "strip (lower ''  '') = []"
    by code_simp
  show ?thesis
    using q p1 p2 p3
      empty_pref_name_scores_containment
        [of "[(''molecule_chembl_id'', PStr ''CHEMBL9''), (''max_phase'', PStr ''3'')]" "''Aspirin''"]
      empty_pref_name_scores_containment
        [of "[(''pref_name'', PNone), (''max_phase'', PInt 2)]" "''Aspirin''"]
      empty_pref_name_scores_containment
        [of "[(''pref_name'', PStr ''  ''), (''max_phase'', PStr ''4.0'')]" "''Aspirin''"]
    by (simp add: b)
qed

section \<open>Deep verification\<close>

lemma strip_Nil_iff: "strip s = [] \<longleftrightarrow> (\<forall>c \<in> set s. is_space c)"
proof
  assume "strip s = []"
  then have all: "\<forall>c \<in> set (dropWhile is_space s). is_space c"
    by (simp add: strip_def dropWhile_eq_Nil_conv)
  have "dropWhile is_space s = []"
  proof (rule ccontr)
    assume ne: "dropWhile is_space s \<noteq> []"
    then have "\<not> is_space (hd (dropWhile is_space s))"
      by (simp add: hd_dropWhile)
    then show False
      using all ne hd_in_set by blast
  qed
  then show "\<forall>c \<in> set s. is_space c"
    by (simp add: dropWhile_eq_Nil_conv)
next
  assume "\<forall>c \<in> set s. is_space c"
  then have "dropWhile is_space s = []"
    by (simp only: dropWhile_eq_Nil_conv)
  then show "strip s = []"
    by (simp add: strip_def del: dropWhile_eq_Nil_conv)
qed

lemma strip_hd: "strip s \<noteq> [] \<Longrightarrow> \<not> is_space (hd (strip s))"
  by (metis (no_types, lifting) dropWhile_eq_Nil_conv dropWhile_last
    hd_dropWhile last_rev rev_rev_ident strip_Nil_iff strip_def)

lemma split_first_strip:
  assumes "strip s \<noteq> []"
  shows "split_first (strip s) = Inr (first_token (strip s))"
proof -
  obtain c cs where s: "strip s = c # cs"
    using assms by (cases "strip s") auto
  then have "\<not> is_space c"
    using strip_hd [OF assms] by simp
  then show ?thesis
    by (simp add: split_first_def first_token_def s)
qed

text \<open>Records of the expected shape raise nothing.\<close>

lemma add_synonym_ok:
  assumes "wf_synonym syn"
  shows "\<exists>ns. add_synonym syn names = Inr ns"
proof (cases syn)
  case (PDict d)
  then have "str_or_false (py_or (dget d ''synonyms'') (dget d ''molecule_synonym''))"
    using assms by (simp add: wf_synonym_def)
  then show ?thesis
    using PDict
    by (cases "py_or (dget d ''synonyms'') (dget d ''molecule_synonym'')")
       (auto simp: add_synonym_def str_or_false_def py_or_def lower_strip_def Let_def)
qed (auto simp: add_synonym_def Let_def)

lemma add_synonyms_ok:
  "list_all wf_synonym syns \<Longrightarrow> \<exists>ns. add_synonyms syns names = Inr ns"
proof (induction syns arbitrary: names)
  case Nil
  show ?case by simp
next
  case (Cons syn syns)
  obtain ns where "add_synonym syn names = Inr ns"
    using Cons.prems add_synonym_ok [of syn names] by auto
  then show ?case
    using Cons by simp
qed

lemma synonym_entries_iter:
  assumes "wf_names full"
  shows "py_iter (py_or (dget full ''molecule_synonyms'') (PList [])) = Inr (synonym_entries full)"
    and "list_all wf_synonym (synonym_entries full)"
  using assms
  by (cases "dget full ''molecule_synonyms''";
      simp add: wf_names_def py_or_def synonym_entries_def)+

lemma names_of_ok:
  assumes "wf_names full"
  shows "\<exists>ns. names_of full = Inr ns"
proof -
  have pref: "lower_strip (py_or (dget full ''pref_name'') (PStr [])) = Inr (preferred_name full)"
    using assms by (simp add: wf_names_def lower_strip_pref)
  show ?thesis
    using add_synonyms_ok [OF synonym_entries_iter(2) [OF assms]]
    by (simp add: names_of_def pref synonym_entries_iter(1) [OF assms])
qed

lemma deep_check_ok:
  assumes wf: "\<forall>i m. molecule_get a i = Some m \<longrightarrow> wf_names m"
    and q: "normalized q \<noteq> []"
  shows "\<exists>v. snd (deep_check a q r0 cs) = Inr v"
proof (induction cs)
  case Nil
  show ?case by simp
next
  case (Cons c cs)
  have tok: "split_first (strip (lower q)) = Inr (first_token (normalized q))"
    using q split_first_strip [of "lower q"] by (simp add: normalized_def)
  show ?case
  proof (cases "molecule_get a (dget c ''molecule_chembl_id'')")
    case None
    then show ?thesis
      using Cons.IH by (simp add: case_prod_beta)
  next
    case (Some full)
    then obtain ns where "names_of full = Inr ns"
      using wf names_of_ok by blast
    then show ?thesis
      using Some Cons.IH tok by (simp add: Let_def case_prod_beta)
  qed
qed







section \<open>The main loop\<close>

text \<open>On a run that completes, the loop body appends the row and the target rows of the name.\<close>

lemma is_small_of_truthy:
  "is_small_of mol_type smiles = Inr v \<Longrightarrow> truthy v = (small_molecule mol_type \<and> truthy smiles)"
  by (cases mol_type) (auto simp: is_small_of_def small_molecule_def lower_def split: if_splits)

lemma record_molecule_step:
  assumes "record_molecule a name chembl_id (m, t) = (tr, Inr (m', t'))"
  shows "\<exists>smiles inchi_key mol_type.
      snd (fetch_molecule_data a chembl_id) = Inr (smiles, inchi_key, mol_type)
      \<and> (small_molecule mol_type \<and> truthy smiles
           \<longrightarrow> m' = m @ [meta_row name chembl_id smiles inchi_key mol_type ''ok'']
             \<and> t' = t @ map (\<lambda>r. r @ [(''query_name'', PStr name)]) (snd (fetch_targets a chembl_id)))
      \<and> (\<not> (small_molecule mol_type \<and> truthy smiles)
           \<longrightarrow> m' = m @ [meta_row name chembl_id smiles inchi_key mol_type ''non_small_or_no_smiles'']
             \<and> t' = t \<and> (\<forall>i. Mechanisms i \<notin> set tr))
      \<and> (\<forall>i. Mechanisms i \<in> set tr \<longrightarrow> i = chembl_id)"
proof -
  obtain t1 r1 where f: "fetch_molecule_data a chembl_id = (t1, r1)"
    by (cases "fetch_molecule_data a chembl_id")
  have t1: "t1 = [Get chembl_id]"
    using f by (simp add: fetch_molecule_data_def)
  obtain smiles inchi_key mol_type where r1: "r1 = Inr (smiles, inchi_key, mol_type)"
    using assms f by (cases r1) (auto simp: record_molecule_def)
  obtain v where v: "is_small_of mol_type smiles = Inr v"
    using assms f r1 by (cases "is_small_of mol_type smiles") (auto simp: record_molecule_def)
  have tv: "truthy v = (small_molecule mol_type \<and> truthy smiles)"
    using v by (rule is_small_of_truthy)
  obtain t2 ts where ft: "fetch_targets a chembl_id = (t2, ts)"
    by (cases "fetch_targets a chembl_id")
  have t2: "t2 = [Mechanisms chembl_id]"
    using ft by (simp add: fetch_targets_def)
  show ?thesis
    using assms f r1 v tv ft t1 t2
    by (auto simp: record_molecule_def Let_def split: if_splits)
qed

lemma deep_check_calls: "set (fst (deep_check a q r0 cs)) \<subseteq> range Get"
proof (induction cs)
  case Nil
  show ?case by simp
next
  case (Cons c cs)
  then show ?case
    by (auto simp: Let_def split: option.splits sum.splits prod.splits)
qed

lemma choose_calls: "Mechanisms i \<notin> set (fst (choose_best_candidate a cs q))"
proof -
  have "set (fst (choose_best_candidate a cs q)) \<subseteq> range Get"
    using deep_check_calls by (auto simp: choose_best_candidate_def split: sum.splits)
  then show ?thesis by auto
qed

lemma find_candidates_calls: "Mechanisms i \<notin> set (fst (find_candidates a name))"
  by (auto simp: find_candidates_def pref_name_exact_def limited_text_search_def
      split: option.splits list.splits)

lemma process_name_blank: "strip raw = [] \<Longrightarrow> process_name a raw st = ([], Inr st)"
  by (cases st) (simp add: process_name_def)

lemma process_name_spec:
  assumes name: "strip raw = name" "name \<noteq> []"
    and run: "process_name a raw (m, t) = (tr, Inr (m', t'))"
  shows "m' = m @ [spec_row a name] \<and> t' = t @ spec_targets a name
    \<and> (\<forall>i. Mechanisms i \<in> set tr \<longrightarrow> spec_status a name = ''ok'' \<and> i = chosen a name)"
proof -
  obtain t1 cs where fc: "find_candidates a name = (t1, cs)"
    by (cases "find_candidates a name")
  have cs: "candidates_of a name = cs"
    using fc by (simp add: candidates_of_def)
  have t1: "Mechanisms i \<notin> set t1" for i
    using find_candidates_calls [of i a name] fc by simp
  show ?thesis
  proof (cases "cs = []")
    case True
    then show ?thesis
      using name run fc cs t1
      by (auto simp: process_name_def spec_row_def spec_targets_def spec_status_def)
  next
    case False
    obtain t2 r2 where ch: "choose_best_candidate a cs name = (t2, r2)"
      by (cases "choose_best_candidate a cs name")
    have t2: "Mechanisms i \<notin> set t2" for i
      using choose_calls [of i a cs name] ch by simp
    obtain chembl_id where r2: "r2 = Inr chembl_id"
      using name run fc False ch by (cases r2) (auto simp: process_name_def)
    have chosen: "chosen a name = chembl_id"
      using cs ch r2 by (simp add: chosen_def)
    show ?thesis
    proof (cases "truthy chembl_id")
      case no: False
      then show ?thesis
        using name run fc \<open>cs \<noteq> []\<close> ch r2 cs chosen t1 t2
        by (auto simp: process_name_def spec_row_def spec_targets_def spec_status_def)
    next
      case yes: True
      obtain t3 where rm: "record_molecule a name chembl_id (m, t) = (t3, Inr (m', t'))"
        and tr: "tr = t1 @ t2 @ t3"
        using name run fc \<open>cs \<noteq> []\<close> ch r2 yes
        by (auto simp: process_name_def split: prod.splits)
      obtain smiles inchi_key mol_type where
        f: "snd (fetch_molecule_data a chembl_id) = Inr (smiles, inchi_key, mol_type)"
        and ok: "small_molecule mol_type \<and> truthy smiles
           \<longrightarrow> m' = m @ [meta_row name chembl_id smiles inchi_key mol_type ''ok'']
             \<and> t' = t @ map (\<lambda>r. r @ [(''query_name'', PStr name)]) (snd (fetch_targets a chembl_id))"
        and non: "\<not> (small_molecule mol_type \<and> truthy smiles)
           \<longrightarrow> m' = m @ [meta_row name chembl_id smiles inchi_key mol_type ''non_small_or_no_smiles'']
             \<and> t' = t \<and> (\<forall>i. Mechanisms i \<notin> set t3)"
        and calls: "\<forall>i. Mechanisms i \<in> set t3 \<longrightarrow> i = chembl_id"
        using record_molecule_step [OF rm] by blast
      have fetched: "fetched a name = (smiles, inchi_key, mol_type)"
        using f chosen by (simp add: fetched_def)
      show ?thesis
      proof (cases "small_molecule mol_type \<and> truthy smiles")
        case True
        then show ?thesis
          using ok calls cs chosen fetched yes \<open>cs \<noteq> []\<close> tr t1 t2
          by (auto simp: spec_row_def spec_targets_def spec_status_def)
      next
        case False
        then show ?thesis
          using non cs chosen fetched yes \<open>cs \<noteq> []\<close> tr t1 t2
          by (auto simp: spec_row_def spec_targets_def spec_status_def)
      qed
    qed
  qed
qed

lemma main_loop_spec:
  "main_loop a names (m, t) = (tr, Inr (m', t'))
   \<Longrightarrow> m' = m @ map (spec_row a) (processed names)
     \<and> t' = t @ concat (map (spec_targets a) (processed names))
     \<and> (\<forall>i. Mechanisms i \<in> set tr
          \<longrightarrow> (\<exists>n \<in> set (processed names). spec_status a n = ''ok'' \<and> i = chosen a n))"
proof (induction names arbitrary: m t tr)
  case Nil
  then show ?case by (simp add: processed_def)
next
  case (Cons raw names)
  obtain t1 r1 where p: "process_name a raw (m, t) = (t1, r1)"
    by (cases "process_name a raw (m, t)")
  obtain m1 ts1 where r1: "r1 = Inr (m1, ts1)"
    using Cons.prems p by (cases r1) auto
  obtain t2 where rest: "main_loop a names (m1, ts1) = (t2, Inr (m', t'))" and tr: "tr = t1 @ t2"
    using Cons.prems p r1 by (auto split: prod.splits)
  note IH = Cons.IH [OF rest]
  show ?case
  proof (cases "strip raw = []")
    case True
    then have "m1 = m" "ts1 = t" "t1 = []"
      using p r1 process_name_blank [of raw a "(m, t)"] by simp_all
    then show ?thesis
      using IH True tr by (simp add: processed_def)
  next
    case False
    have step: "m1 = m @ [spec_row a (strip raw)] \<and> ts1 = t @ spec_targets a (strip raw)
      \<and> (\<forall>i. Mechanisms i \<in> set t1
            \<longrightarrow> spec_status a (strip raw) = ''ok'' \<and> i = chosen a (strip raw))"
      using process_name_spec [OF refl False] p r1 by blast
    have pr: "processed (raw # names) = strip raw # processed names"
      using False by (simp add: processed_def)
    show ?thesis
      using IH step tr unfolding pr by auto
  qed
qed

lemma is_space_lower_char: "is_space (lower_char c) = is_space c"
  unfolding lower_char_def is_space_def
  by (auto split: option.splits if_splits)

lemma normalized_stripped:
  assumes "strip raw \<noteq> []"
  shows "normalized (strip raw) \<noteq> []"
proof
  assume "normalized (strip raw) = []"
  then have "\<forall>c \<in> set (strip raw). is_space c"
    by (simp add: normalized_def strip_Nil_iff lower_def is_space_lower_char)
  moreover have "hd (strip raw) \<in> set (strip raw)"
    using assms by simp
  ultimately show False
    using strip_hd [OF assms] by blast
qed

lemma find_candidates_wf:
  assumes "wf_api a"
  shows "list_all wf_candidate (candidates_of a name)"
proof -
  have search: "list_all wf_candidate (snd (limited_text_search a name))"
  proof (cases "molecule_search a name")
    case None
    then show ?thesis by (simp add: limited_text_search_def)
  next
    case (Some rows)
    then have "list_all wf_candidate rows"
      using assms by (simp add: wf_api_def)
    then show ?thesis
      using Some by (auto simp: limited_text_search_def list_all_iff dest: in_set_takeD)
  qed
  have exact: "wf_candidate c" if c: "snd (pref_name_exact a name) = Some c" for c
  proof (cases "molecule_filter_iexact a name")
    case None
    then show ?thesis
      using c by (simp add: pref_name_exact_def)
  next
    case (Some rows)
    then have "list_all wf_candidate rows"
      using assms by (simp add: wf_api_def)
    then show ?thesis
      using c Some by (cases rows) (auto simp: pref_name_exact_def)
  qed
  show ?thesis
    using search exact
    by (auto simp: candidates_of_def find_candidates_def split: prod.splits option.splits)
qed

lemma choose_ok:
  assumes "wf_api a" and "list_all wf_candidate cs" and "normalized q \<noteq> []"
  shows "\<exists>chembl_id. snd (choose_best_candidate a cs q) = Inr chembl_id"
proof (cases "cs = []")
  case True
  then show ?thesis by (simp add: choose_best_candidate_def)
next
  case False
  have get: "\<forall>i m. molecule_get a i = Some m \<longrightarrow> wf_names m"
    using assms(1) by (simp add: wf_api_def)
  show ?thesis
    using False ranked_spec [OF assms(2), of q] deep_check_ok [OF get assms(3)]
    by (simp add: choose_best_candidate_def)
qed

lemma fetch_ok:
  assumes "wf_api a"
  shows "\<exists>smiles inchi_key mol_type.
    snd (fetch_molecule_data a chembl_id) = Inr (smiles, inchi_key, mol_type)
    \<and> str_or_false mol_type"
proof (cases "molecule_get a chembl_id")
  case None
  then show ?thesis
    by (simp add: fetch_molecule_data_def str_or_false_def)
next
  case (Some mol)
  then have "wf_structure mol"
    using assms by (simp add: wf_api_def)
  then show ?thesis
    using Some
    by (cases "dget mol ''molecule_structures''")
       (auto simp: fetch_molecule_data_def wf_structure_def py_or_def Let_def)
qed

lemma is_small_ok: "str_or_false mol_type \<Longrightarrow> \<exists>v. is_small_of mol_type smiles = Inr v"
  by (cases mol_type) (auto simp: is_small_of_def str_or_false_def)

lemma record_molecule_ok:
  assumes "wf_api a"
  shows "\<exists>tr out. record_molecule a name chembl_id st = (tr, Inr out)"
proof -
  obtain m t where st: "st = (m, t)"
    by (cases st)
  obtain t1 r1 where f: "fetch_molecule_data a chembl_id = (t1, r1)"
    by (cases "fetch_molecule_data a chembl_id")
  obtain smiles inchi_key mol_type where r1: "r1 = Inr (smiles, inchi_key, mol_type)"
    and ty: "str_or_false mol_type"
    using fetch_ok [OF assms, of chembl_id] f by auto
  obtain v where v: "is_small_of mol_type smiles = Inr v"
    using is_small_ok [OF ty] by blast
  show ?thesis
    using st f r1 v by (simp add: record_molecule_def Let_def split: prod.splits)
qed

lemma process_name_ok:
  assumes "wf_api a"
  shows "\<exists>tr out. process_name a raw st = (tr, Inr out)"
proof (cases "strip raw = []")
  case True
  then show ?thesis by (simp add: process_name_blank)
next
  case False
  obtain m t where st: "st = (m, t)"
    by (cases st)
  obtain t1 cs where fc: "find_candidates a (strip raw) = (t1, cs)"
    by (cases "find_candidates a (strip raw)")
  have wf: "list_all wf_candidate cs"
    using find_candidates_wf [OF assms, of "strip raw"] fc by (simp add: candidates_of_def)
  obtain t2 r2 where ch: "choose_best_candidate a cs (strip raw) = (t2, r2)"
    by (cases "choose_best_candidate a cs (strip raw)")
  obtain chembl_id where r2: "r2 = Inr chembl_id"
    using choose_ok [OF assms wf normalized_stripped [OF False]] ch by auto
  obtain t3 out where rm: "record_molecule a (strip raw) chembl_id (m, t) = (t3, Inr out)"
    using record_molecule_ok [OF assms] by blast
  show ?thesis
    using False st fc ch r2 rm by (auto simp: process_name_def Let_def)
qed

lemma main_loop_ok:
  assumes "wf_api a"
  shows "\<exists>tr out. main_loop a names st = (tr, Inr out)"
proof (induction names arbitrary: st)
  case Nil
  show ?case by simp
next
  case (Cons raw names)
  obtain t1 st1 where p: "process_name a raw st = (t1, Inr st1)"
    using process_name_ok [OF assms] by blast
  obtain t2 out where "main_loop a names st1 = (t2, Inr out)"
    using Cons.IH by blast
  then show ?case
    using p by simp
qed

lemma unique_from_set: "set (unique_from seen xs) = set xs - set seen"
  by (induction xs arbitrary: seen) auto

lemma unique_from_distinct: "distinct (unique_from seen xs)"
  by (induction xs arbitrary: seen) (auto simp: unique_from_set)

lemma unique_from_subseq: "subseq (unique_from seen xs) xs"
  by (induction xs arbitrary: seen) auto

lemma remdups_snoc: "remdups (zs @ [x]) = remdups (filter (\<lambda>y. y \<noteq> x) zs) @ [x]"
  by (induction zs) auto

lemma unique_from_first:
  "unique_from seen xs = rev (remdups (rev (filter (\<lambda>x. x \<notin> set seen) xs)))"
proof (induction xs arbitrary: seen)
  case Nil
  show ?case by simp
next
  case (Cons x xs)
  show ?case
  proof (cases "x \<in> set seen")
    case True
    then show ?thesis
      using Cons.IH [of seen] by simp
  next
    case False
    let ?ys = "filter (\<lambda>y. y \<notin> set seen) xs"
    have "filter (\<lambda>y. y \<noteq> x) ?ys = filter (\<lambda>y. y \<notin> set (x # seen)) xs"
      by (induction xs) auto
    then have "unique_from (x # seen) xs = rev (remdups (rev (filter (\<lambda>y. y \<noteq> x) ?ys)))"
      using Cons.IH [of "x # seen"] by simp
    moreover have "remdups (rev ?ys @ [x]) = remdups (filter (\<lambda>y. y \<noteq> x) (rev ?ys)) @ [x]"
      by (rule remdups_snoc)
    ultimately show ?thesis
      using False by (simp add: rev_filter)
  qed
qed

lemma spec_row_fields:
  "dget (spec_row a n) ''query_name'' = PStr n
   \<and> dget (spec_row a n) ''status'' = PStr (spec_status a n)
   \<and> (spec_status a n = ''ok'' \<longrightarrow> dget (spec_row a n) ''chembl_id'' = chosen a n)"
  by (auto simp: spec_row_def spec_status_def meta_row_def dget_def split: prod.splits)

lemma spec_status_values:
  "spec_status a n \<in> {''ok'', ''no_hit'', ''no_candidate'', ''non_small_or_no_smiles''}"
  by (auto simp: spec_status_def split: prod.splits)

lemma spec_targets_fields:
  assumes "t \<in> set (spec_targets a n)"
  shows "spec_status a n = ''ok'' \<and> dget t ''query_name'' = PStr n
    \<and> dget t ''molecule_chembl_id'' = chosen a n"
proof -
  have ok: "spec_status a n = ''ok''"
    using assms by (auto simp: spec_targets_def split: if_splits)
  then obtain r where "r \<in> set (snd (fetch_targets a (chosen a n)))"
    and t: "t = r @ [(''query_name'', PStr n)]"
    using assms by (auto simp: spec_targets_def)
  then obtain mech where "r = target_row (chosen a n) mech"
    by (auto simp: fetch_targets_def split: option.splits)
  then show ?thesis
    using ok t by (simp add: target_row_def dget_def)
qed

lemma main_spec:
  assumes "main df a = (tr, Some (meta, targets), r)"
  shows "\<exists>col. map_of df ''Name'' = Some col
    \<and> meta = map (spec_row a) (processed (unique (dropna col)))
    \<and> targets = concat (map (spec_targets a) (processed (unique (dropna col))))
    \<and> (\<forall>i. Mechanisms i \<in> set tr
          \<longrightarrow> (\<exists>n \<in> set (processed (unique (dropna col))). spec_status a n = ''ok'' \<and> i = chosen a n))"
proof -
  obtain col where col: "map_of df ''Name'' = Some col"
    using assms by (cases "map_of df ''Name''") (auto simp: main_def)
  then have "main_loop a (unique (dropna col)) ([], []) = (tr, Inr (meta, targets))"
    using assms by (auto simp: main_def split: prod.splits sum.splits)
  from main_loop_spec [OF this] col show ?thesis
    by simp
qed

lemma wf_api_aspirin: "wf_api api_aspirin"
proof -
  have hits: "wf_candidate (hit i p n)" for i p n
    by (simp add: wf_candidate_def str_or_false_def dget_def hit_def)
  have nameless: "wf_candidate [(''pref_name'', PStr ''NAMELESS'')]"
    by (simp add: wf_candidate_def str_or_false_def dget_def)
  have full: "wf_names full_aspirin" "wf_structure full_aspirin"
    by code_simp+
  show ?thesis
    using hits nameless full
    by (auto simp: wf_api_def api_aspirin_def split: if_splits)
qed

lemma wf_api_down: "wf_api api_down"
  by (simp add: wf_api_def api_down_def)

text \<open>
  Claim C1. When the table has the column \<open>Name\<close> and the answers of the database have
  the expected shape, the loop completes and both tables are written. The metadata rows
  are, in order, one row for every name that is left after missing cells are dropped,
  duplicates are removed and blank names are skipped: the row carries the stripped name.
  Every status is one of \<open>ok\<close>, \<open>no_hit\<close>, \<open>no_candidate\<close> and
  \<open>non_small_or_no_smiles\<close>. The deduplicated names are distinct, are the names of the
  column, and stand in the order of their first occurrence.
\<close>

theorem one_meta_row_per_name:
  assumes "wf_api a" and "map_of df ''Name'' = Some col"
  shows "\<exists>tr meta targets r. main df a = (tr, Some (meta, targets), r)
    \<and> map (\<lambda>r. dget r ''query_name'') meta
        = map PStr (filter (\<lambda>n. n \<noteq> []) (map strip (unique (dropna col))))
    \<and> (\<forall>r \<in> set meta. dget r ''status''
          \<in> {PStr ''ok'', PStr ''no_hit'', PStr ''no_candidate'', PStr ''non_small_or_no_smiles''})
    \<and> distinct (unique (dropna col))
    \<and> set (unique (dropna col)) = set (dropna col)
    \<and> subseq (unique (dropna col)) (dropna col)
    \<and> unique (dropna col) = rev (remdups (rev (dropna col)))"
proof -
  obtain tr meta targets where run: "main df a = (tr, Some (meta, targets), summary meta)"
    using main_loop_ok [OF assms(1), of "unique (dropna col)" "([], [])"] assms(2)
    by (auto simp: main_def)
  have meta: "meta = map (spec_row a) (processed (unique (dropna col)))"
    using main_spec [OF run] assms(2) by auto
  have names: "map (\<lambda>r. dget r ''query_name'') meta
      = map PStr (filter (\<lambda>n. n \<noteq> []) (map strip (unique (dropna col))))"
    by (simp add: meta spec_row_fields processed_def comp_def)
  have status: "\<forall>r \<in> set meta. dget r ''status''
      \<in> {PStr ''ok'', PStr ''no_hit'', PStr ''no_candidate'', PStr ''non_small_or_no_smiles''}"
    using spec_status_values [of a] by (auto simp: meta spec_row_fields)
  have d1: "distinct (unique (dropna col))"
    by (simp add: unique_def unique_from_distinct)
  have d2: "set (unique (dropna col)) = set (dropna col)"
    by (simp add: unique_def unique_from_set)
  have d3: "subseq (unique (dropna col)) (dropna col)"
    unfolding unique_def by (rule unique_from_subseq)
  have d4: "unique (dropna col) = rev (remdups (rev (dropna col)))"
    by (simp add: unique_def unique_from_first)
  show ?thesis
    using run names status d1 d2 d3 d4 by blast
qed

text \<open>
  Claim C2. In the output of a run, every target row has a metadata row of the same
  query name and molecule with status \<open>ok\<close>, every metadata row of that query name has
  status \<open>ok\<close>, and the mechanisms were requested only for molecules whose metadata row
  has status \<open>ok\<close>.
\<close>

theorem targets_only_for_ok:
  assumes "main df a = (tr, Some (meta, targets), r)"
  shows "(\<forall>t \<in> set targets. \<exists>m \<in> set meta.
            dget m ''query_name'' = dget t ''query_name''
            \<and> dget m ''chembl_id'' = dget t ''molecule_chembl_id''
            \<and> dget m ''status'' = PStr ''ok'')
    \<and> (\<forall>t \<in> set targets. \<forall>m \<in> set meta.
            dget m ''query_name'' = dget t ''query_name'' \<longrightarrow> dget m ''status'' = PStr ''ok'')
    \<and> (\<forall>i. Mechanisms i \<in> set tr
          \<longrightarrow> (\<exists>m \<in> set meta. dget m ''chembl_id'' = i \<and> dget m ''status'' = PStr ''ok''))"
proof -
  obtain col where meta: "meta = map (spec_row a) (processed (unique (dropna col)))"
    and targets: "targets = concat (map (spec_targets a) (processed (unique (dropna col))))"
    and calls: "\<forall>i. Mechanisms i \<in> set tr
          \<longrightarrow> (\<exists>n \<in> set (processed (unique (dropna col))). spec_status a n = ''ok'' \<and> i = chosen a n)"
    using main_spec [OF assms] by blast
  let ?ns = "processed (unique (dropna col))"
  have one: "\<exists>m \<in> set meta. dget m ''query_name'' = dget t ''query_name''
      \<and> dget m ''chembl_id'' = dget t ''molecule_chembl_id'' \<and> dget m ''status'' = PStr ''ok''"
    if tt: "t \<in> set targets" for t
  proof -
    obtain n where n: "n \<in> set ?ns" and t: "t \<in> set (spec_targets a n)"
      using tt unfolding targets by auto
    have "spec_row a n \<in> set meta"
      using n meta by simp
    then show ?thesis
      using spec_targets_fields [OF t] spec_row_fields [of a n] by auto
  qed
  have all: "dget m ''status'' = PStr ''ok''"
    if tt: "t \<in> set targets" and mm: "m \<in> set meta"
      and eq: "dget m ''query_name'' = dget t ''query_name''" for t m
  proof -
    obtain n where t: "t \<in> set (spec_targets a n)"
      using tt unfolding targets by auto
    obtain n' where m: "m = spec_row a n'"
      using mm unfolding meta by auto
    have "n' = n"
      using eq m spec_targets_fields [OF t] spec_row_fields [of a n'] by simp
    then show ?thesis
      using m spec_targets_fields [OF t] spec_row_fields [of a n] by simp
  qed
  have fetch: "\<exists>m \<in> set meta. dget m ''chembl_id'' = i \<and> dget m ''status'' = PStr ''ok''"
    if ii: "Mechanisms i \<in> set tr" for i
  proof -
    obtain n where n: "n \<in> set ?ns" and ok: "spec_status a n = ''ok''" and i: "i = chosen a n"
      using ii calls by blast
    have "spec_row a n \<in> set meta"
      using n meta by simp
    then show ?thesis
      using ok i spec_row_fields [of a n] by auto
  qed
  show ?thesis
    using one all fetch by blast
qed

lemma example_run:
  "main df_example api_aspirin
     = (example_calls, Some (example_meta, example_targets), Inr (1, 3))"
  by code_simp

theorem one_meta_row_per_name_witness:
  "wf_api api_aspirin
   \<and> map_of df_example ''Name''
       = Some [Some ''Aspirin'', None, Some ''  '', Some ''Ibuprofen'', Some ''Aspirin'',
               Some ''Nameless'', Some '' Unknown '']
   \<and> unique (dropna [Some ''Aspirin'', None, Some ''  '', Some ''Ibuprofen'', Some ''Aspirin'',
                      Some ''Nameless'', Some '' Unknown ''])
       = [''Aspirin'', ''  '', ''Ibuprofen'', ''Nameless'', '' Unknown '']
   \<and> main df_example api_aspirin
       = (example_calls, Some (example_meta, example_targets), Inr (1, 3))
   \<and> map (\<lambda>r. dget r ''query_name'') example_meta
       = [PStr ''Aspirin'', PStr ''Ibuprofen'', PStr ''Nameless'', PStr ''Unknown'']
   \<and> map (\<lambda>r. dget r ''status'') example_meta
       = [PStr ''ok'', PStr ''non_small_or_no_smiles'', PStr ''no_candidate'', PStr ''no_hit'']"
proof -
  have col: "map_of df_example ''Name''
       = Some [Some ''Aspirin'', None, Some ''  '', Some ''Ibuprofen'', Some ''Aspirin'',
               Some ''Nameless'', Some '' Unknown '']"
    by (simp add: df_example_def)
  have names: "unique (dropna [Some ''Aspirin'', None, Some ''  '', Some ''Ibuprofen'',
                  Some ''Aspirin'', Some ''Nameless'', Some '' Unknown ''])
       = [''Aspirin'', ''  '', ''Ibuprofen'', ''Nameless'', '' Unknown '']"
    by code_simp
  have fields: "map (\<lambda>r. dget r ''query_name'') example_meta
       = [PStr ''Aspirin'', PStr ''Ibuprofen'', PStr ''Nameless'', PStr ''Unknown'']"
    "map (\<lambda>r. dget r ''status'') example_meta
       = [PStr ''ok'', PStr ''non_small_or_no_smiles'', PStr ''no_candidate'', PStr ''no_hit'']"
    by code_simp+
  show ?thesis
    using one_meta_row_per_name [OF wf_api_aspirin col] wf_api_aspirin col names fields example_run
    by simp
qed

theorem targets_only_for_ok_witness:
  "main df_example api_aspirin
     = (example_calls, Some (example_meta, example_targets), Inr (1, 3))
   \<and> map (\<lambda>t. (dget t ''query_name'', dget t ''molecule_chembl_id'')) example_targets
       = [(PStr ''Aspirin'', PStr ''CHEMBL25'')]
   \<and> map (\<lambda>m. (dget m ''query_name'', dget m ''chembl_id'', dget m ''status''))
         (filter (\<lambda>m. dget m ''status'' = PStr ''ok'') example_meta)
       = [(PStr ''Aspirin'', PStr ''CHEMBL25'', PStr ''ok'')]
   \<and> filter (\<lambda>c. case c of Mechanisms i \<Rightarrow> True | _ \<Rightarrow> False) example_calls
       = [Mechanisms (PStr ''CHEMBL25'')]"
proof -
  have a: "map (\<lambda>t. (dget t ''query_name'', dget t ''molecule_chembl_id'')) example_targets
       = [(PStr ''Aspirin'', PStr ''CHEMBL25'')]"
    by code_simp
  have b: "map (\<lambda>m. (dget m ''query_name'', dget m ''chembl_id'', dget m ''status''))
         (filter (\<lambda>m. dget m ''status'' = PStr ''ok'') example_meta)
       = [(PStr ''Aspirin'', PStr ''CHEMBL25'', PStr ''ok'')]"
    by code_simp
  have c: "filter (\<lambda>c. case c of Mechanisms i \<Rightarrow> True | _ \<Rightarrow> False) example_calls
       = [Mechanisms (PStr ''CHEMBL25'')]"
    by code_simp
  show ?thesis
    using targets_only_for_ok [OF example_run] example_run a b c by simp
qed

text \<open>
  Claim C3, as stated, fails for an empty SMILES string: the molecule type is
  \<open>Small molecule\<close> and the SMILES is not \<^verbatim>\<open>None\<close>, but the empty string tests
  false and the status is \<open>non_small_or_no_smiles\<close>.
\<close>

theorem ok_status_empty_smiles_counterexample:
  "snd (fetch_molecule_data api_empty_smiles (PStr ''CHEMBL25''))
     = Inr (PStr [], PNone, PStr ''Small molecule'')
   \<and> lower ''Small molecule'' = ''small molecule''
   \<and> PStr [] \<noteq> PNone
   \<and> snd (process_name api_empty_smiles ''Aspirin'' ([], []))
       = Inr ([meta_row ''Aspirin'' (PStr ''CHEMBL25'') (PStr []) PNone (PStr ''Small molecule'')
                 ''non_small_or_no_smiles''], [])"
  by code_simp

text \<open>
  Claim C3, amended. The row appended for a name has status \<open>no_hit\<close> exactly when no
  candidate was found, \<open>no_candidate\<close> exactly when there are candidates and the chosen
  identifier tests false, \<open>ok\<close> exactly when an identifier was chosen, the fetched
  molecule type equals \<open>small molecule\<close> in lower case and the fetched SMILES tests true
  (for a string: it is not \<^verbatim>\<open>None\<close> and not empty), and \<open>non_small_or_no_smiles\<close>
  exactly when an identifier was chosen and the last condition fails.
\<close>

theorem status_assignment:
  assumes "strip raw = name" and "name \<noteq> []"
    and "process_name a raw (m, t) = (tr, Inr (m', t'))"
  shows "\<exists>row status. m' = m @ [row] \<and> dget row ''status'' = PStr status
    \<and> (status = ''no_hit'' \<longleftrightarrow> candidates_of a name = [])
    \<and> (status = ''no_candidate''
          \<longleftrightarrow> candidates_of a name \<noteq> [] \<and> \<not> truthy (chosen a name))
    \<and> (status = ''ok''
          \<longleftrightarrow> candidates_of a name \<noteq> [] \<and> truthy (chosen a name)
              \<and> small_molecule (snd (snd (fetched a name))) \<and> truthy (fst (fetched a name)))
    \<and> (status = ''non_small_or_no_smiles''
          \<longleftrightarrow> candidates_of a name \<noteq> [] \<and> truthy (chosen a name)
              \<and> \<not> (small_molecule (snd (snd (fetched a name))) \<and> truthy (fst (fetched a name))))"
proof -
  have row: "m' = m @ [spec_row a name]"
    using process_name_spec [OF assms] by simp
  have st: "dget (spec_row a name) ''status'' = PStr (spec_status a name)"
    using spec_row_fields by simp
  have "(spec_status a name = ''no_hit'' \<longleftrightarrow> candidates_of a name = [])"
    and "(spec_status a name = ''no_candidate''
          \<longleftrightarrow> candidates_of a name \<noteq> [] \<and> \<not> truthy (chosen a name))"
    and "(spec_status a name = ''ok''
          \<longleftrightarrow> candidates_of a name \<noteq> [] \<and> truthy (chosen a name)
              \<and> small_molecule (snd (snd (fetched a name))) \<and> truthy (fst (fetched a name)))"
    and "(spec_status a name = ''non_small_or_no_smiles''
          \<longleftrightarrow> candidates_of a name \<noteq> [] \<and> truthy (chosen a name)
              \<and> \<not> (small_molecule (snd (snd (fetched a name))) \<and> truthy (fst (fetched a name))))"
    by (auto simp: spec_status_def split: prod.splits)
  then show ?thesis
    using row st by blast
qed

theorem status_assignment_witness:
  "strip '' Aspirin '' = ''Aspirin'' \<and> ''Aspirin'' \<noteq> []
   \<and> snd (process_name api_aspirin '' Aspirin '' ([], []))
       = Inr ([meta_row ''Aspirin'' (PStr ''CHEMBL25'') (PStr ''CC(=O)Oc1ccccc1C(=O)O'')
                (PStr ''BSYNRYMUTXBXSQ-UHFFFAOYSA-N'') (PStr ''Small molecule'') ''ok''],
              example_targets)
   \<and> candidates_of api_aspirin ''Aspirin'' \<noteq> []
   \<and> chosen api_aspirin ''Aspirin'' = PStr ''CHEMBL25''
   \<and> fetched api_aspirin ''Aspirin''
       = (PStr ''CC(=O)Oc1ccccc1C(=O)O'', PStr ''BSYNRYMUTXBXSQ-UHFFFAOYSA-N'', PStr ''Small molecule'')
   \<and> small_molecule (PStr ''Small molecule'')"
proof -
  have s: "strip '' Aspirin '' = ''Aspirin''"
    by code_simp
  have run: "process_name api_aspirin '' Aspirin '' ([], [])
      = ([Filter_iexact ''Aspirin'', Search ''Aspirin'', Get (PStr ''CHEMBL1''),
          Get (PStr ''CHEMBL25''), Get (PStr ''CHEMBL25''), Mechanisms (PStr ''CHEMBL25'')],
         Inr ([meta_row ''Aspirin'' (PStr ''CHEMBL25'') (PStr ''CC(=O)Oc1ccccc1C(=O)O'')
                (PStr ''BSYNRYMUTXBXSQ-UHFFFAOYSA-N'') (PStr ''Small molecule'') ''ok''],
              example_targets))"
    by code_simp
  have c: "candidates_of api_aspirin ''Aspirin'' \<noteq> []"
    by code_simp
  have ch: "chosen api_aspirin ''Aspirin'' = PStr ''CHEMBL25''"
    by code_simp
  have f: "fetched api_aspirin ''Aspirin''
       = (PStr ''CC(=O)Oc1ccccc1C(=O)O'', PStr ''BSYNRYMUTXBXSQ-UHFFFAOYSA-N'', PStr ''Small molecule'')"
    by code_simp
  have sm: "small_molecule (PStr ''Small molecule'')"
    by code_simp
  show ?thesis
    using status_assignment [OF s _ run] s run c ch f sm by simp
qed

section \<open>Failures\<close>

text \<open>
  A failed request is caught where it is made: the exact lookup gives no record, the
  text search no candidates, the deep verification goes on with the next candidate, the
  structure fetch gives three times \<^verbatim>\<open>None\<close>, and the mechanism fetch gives no rows.
\<close>

lemma failed_requests_are_caught:
  "(molecule_filter_iexact a name = None \<longrightarrow> snd (pref_name_exact a name) = None)
   \<and> (molecule_search a name = None \<longrightarrow> snd (limited_text_search a name) = [])
   \<and> (molecule_get a (dget c ''molecule_chembl_id'') = None
        \<longrightarrow> snd (deep_check a q r0 (c # cs)) = snd (deep_check a q r0 cs))
   \<and> (molecule_get a i = None \<longrightarrow> snd (fetch_molecule_data a i) = Inr (PNone, PNone, PNone))
   \<and> (mechanism_filter a i = None \<longrightarrow> snd (fetch_targets a i) = [])"
  by (simp add: pref_name_exact_def limited_text_search_def fetch_molecule_data_def
      fetch_targets_def case_prod_beta)

text \<open>
  Without the column \<open>Name\<close> the script ends with \<^verbatim>\<open>ValueError\<close> before any request is
  made and before anything is written. With the column, and answers of the expected
  shape, the loop raises nothing and both tables are written; the script then ends with
  its summary, unless no row was collected: then the count of the \<open>ok\<close> rows raises
  \<^verbatim>\<open>KeyError\<close>.
\<close>

lemma main_ends:
  "(map_of df ''Name'' = None \<longrightarrow> main df a = ([], None, Inl ValueError))
   \<and> (wf_api a \<and> map_of df ''Name'' = Some col
        \<longrightarrow> (\<exists>tr meta targets. main df a = (tr, Some (meta, targets), summary meta)
              \<and> meta = map (spec_row a) (processed (unique (dropna col)))
              \<and> (\<forall>e. summary meta = Inl e
                    \<longrightarrow> e = KeyError \<and> processed (unique (dropna col)) = [])))"
proof -
  have present: "\<exists>tr meta targets. main df a = (tr, Some (meta, targets), summary meta)
      \<and> meta = map (spec_row a) (processed (unique (dropna col)))
      \<and> (\<forall>e. summary meta = Inl e \<longrightarrow> e = KeyError \<and> processed (unique (dropna col)) = [])"
    if wf: "wf_api a" and col: "map_of df ''Name'' = Some col"
  proof -
    obtain tr meta targets where run: "main df a = (tr, Some (meta, targets), summary meta)"
      using main_loop_ok [OF wf, of "unique (dropna col)" "([], [])"] col
      by (auto simp: main_def)
    have meta: "meta = map (spec_row a) (processed (unique (dropna col)))"
      using main_spec [OF run] col by auto
    have "e = KeyError \<and> processed (unique (dropna col)) = []" if "summary meta = Inl e" for e
      using that meta by (auto simp: summary_def Let_def split: if_splits)
    then show ?thesis
      using run meta by blast
  qed
  show ?thesis
    using present by (auto simp: main_def)
qed

text \<open>
  Claim C8 fails for a table that has the column \<open>Name\<close> and no name to process (no row
  at all, or missing and blank cells only): no request is made, two empty tables are
  written, and the script ends with \<^verbatim>\<open>KeyError\<close>, raised by \<^verbatim>\<open>meta_df["status"]\<close>
  on the frame built from no record. The missing column is not the only error raised.
\<close>

theorem no_name_raises_key_error:
  "main [(''Name'', [])] api_aspirin = ([], Some ([], []), Inl KeyError)
   \<and> main [(''Name'', [None, Some ''  '', None])] api_aspirin = ([], Some ([], []), Inl KeyError)
   \<and> main [(''Drug'', [Some ''Aspirin''])] api_aspirin = ([], None, Inl ValueError)"
  by code_simp

section \<open>Two runs on the same input\<close>

text \<open>
  Every function reaches the database through its requests only, so a database that
  answers the requests of a run alike gives the same run.
\<close>

lemma same_responses_simps:
  "same_responses a b []"
  "same_responses a b (c # cs) \<longleftrightarrow> respond b c = respond a c \<and> same_responses a b cs"
  "same_responses a b (cs @ ds) \<longleftrightarrow> same_responses a b cs \<and> same_responses a b ds"
  by (simp_all add: same_responses_def)

lemma pref_name_exact_same:
  "same_responses a b (fst (pref_name_exact a name)) \<Longrightarrow> pref_name_exact b name = pref_name_exact a name"
  by (simp add: pref_name_exact_def same_responses_simps)

lemma limited_text_search_same:
  "same_responses a b (fst (limited_text_search a name))
   \<Longrightarrow> limited_text_search b name = limited_text_search a name"
  by (simp add: limited_text_search_def same_responses_simps)

lemma find_candidates_same:
  assumes "same_responses a b (fst (find_candidates a name))"
  shows "find_candidates b name = find_candidates a name"
proof -
  have t1: "fst (pref_name_exact a name) = [Filter_iexact name]"
    and t2: "fst (limited_text_search a name) = [Search name]"
    by (simp_all add: pref_name_exact_def limited_text_search_def)
  have exact: "pref_name_exact b name = pref_name_exact a name"
    using assms t1
    by (intro pref_name_exact_same)
       (auto simp: find_candidates_def same_responses_simps split: prod.splits option.splits if_splits)
  show ?thesis
  proof (cases "\<exists>c. snd (pref_name_exact a name) = Some c \<and> truthy (PDict c)")
    case True
    then show ?thesis
      using exact by (auto simp: find_candidates_def split: prod.splits option.splits)
  next
    case False
    then have "same_responses a b (fst (limited_text_search a name))"
      using assms t1 t2
      by (auto simp: find_candidates_def same_responses_simps split: prod.splits option.splits if_splits)
    then have search: "limited_text_search b name = limited_text_search a name"
      by (rule limited_text_search_same)
    show ?thesis
      unfolding find_candidates_def exact search by (rule refl)
  qed
qed

lemma deep_check_same:
  "same_responses a b (fst (deep_check a q r0 cs)) \<Longrightarrow> deep_check b q r0 cs = deep_check a q r0 cs"
proof (induction cs)
  case Nil
  show ?case by simp
next
  case (Cons c cs)
  have head: "molecule_get b (dget c ''molecule_chembl_id'') = molecule_get a (dget c ''molecule_chembl_id'')"
    using Cons.prems
    by (auto simp: same_responses_simps Let_def split: option.splits sum.splits prod.splits if_splits)
  have rest: "deep_check b q r0 cs = deep_check a q r0 cs"
    if "fst (deep_check a q r0 (c # cs))
          = Get (dget c ''molecule_chembl_id'') # fst (deep_check a q r0 cs)"
    using that Cons.prems Cons.IH by (simp add: same_responses_simps)
  show ?case
  proof (cases "molecule_get a (dget c ''molecule_chembl_id'')")
    case None
    then show ?thesis
      using head rest by (simp add: case_prod_beta)
  next
    case (Some full)
    show ?thesis
    proof (cases "names_of full")
      case (Inl e)
      then show ?thesis
        using head Some by simp
    next
      case (Inr names)
      show ?thesis
      proof (cases "split_first (strip (lower q))")
        case (Inl e)
        then show ?thesis
          using head Some Inr by simp
      next
        case tok: (Inr q_simplified)
        show ?thesis
        proof (cases "strip (lower q) \<in> names \<or> q_simplified \<in> names")
          case True
          then show ?thesis
            using head Some Inr tok by simp
        next
          case False
          then show ?thesis
            using head Some Inr tok rest by (simp add: case_prod_beta)
        qed
      qed
    qed
  qed
qed

lemma choose_best_candidate_same:
  "same_responses a b (fst (choose_best_candidate a cs q))
   \<Longrightarrow> choose_best_candidate b cs q = choose_best_candidate a cs q"
  by (auto simp: choose_best_candidate_def deep_check_same split: sum.splits)

lemma fetch_molecule_data_same:
  "same_responses a b (fst (fetch_molecule_data a i))
   \<Longrightarrow> fetch_molecule_data b i = fetch_molecule_data a i"
  by (simp add: fetch_molecule_data_def same_responses_simps)

lemma fetch_targets_same:
  "same_responses a b (fst (fetch_targets a i)) \<Longrightarrow> fetch_targets b i = fetch_targets a i"
  by (simp add: fetch_targets_def same_responses_simps)

lemma record_molecule_same:
  assumes "same_responses a b (fst (record_molecule a name i st))"
  shows "record_molecule b name i st = record_molecule a name i st"
proof -
  obtain m t where st: "st = (m, t)"
    by (cases st)
  obtain t1 r1 where f: "fetch_molecule_data a i = (t1, r1)"
    by (cases "fetch_molecule_data a i")
  obtain t2 ts where g: "fetch_targets a i = (t2, ts)"
    by (cases "fetch_targets a i")
  have pre: "same_responses a b t1"
    using assms st f g
    by (auto simp: record_molecule_def same_responses_simps Let_def
        split: sum.splits prod.splits if_splits)
  then have fb: "fetch_molecule_data b i = (t1, r1)"
    using fetch_molecule_data_same [of a b i] f by simp
  show ?thesis
  proof (cases "\<exists>smiles inchi_key mol_type v.
      r1 = Inr (smiles, inchi_key, mol_type) \<and> is_small_of mol_type smiles = Inr v \<and> truthy v")
    case True
    then have "same_responses a b t2"
      using assms st f g by (auto simp: record_molecule_def same_responses_simps Let_def)
    then have "fetch_targets b i = fetch_targets a i"
      using fetch_targets_same [of a b i] g by simp
    moreover have "fetch_molecule_data b i = fetch_molecule_data a i"
      using f fb by simp
    ultimately show ?thesis
      by (simp only: record_molecule_def)
  next
    case False
    then show ?thesis
      using st f fb
      by (auto simp: record_molecule_def Let_def split: sum.splits prod.splits)
  qed
qed

lemma process_name_same:
  assumes "same_responses a b (fst (process_name a raw st))"
  shows "process_name b raw st = process_name a raw st"
proof (cases "strip raw = []")
  case True
  then show ?thesis
    by (simp add: process_name_blank)
next
  case False
  obtain m t where st: "st = (m, t)"
    by (cases st)
  obtain t1 cs where fc: "find_candidates a (strip raw) = (t1, cs)"
    by (cases "find_candidates a (strip raw)")
  obtain t2 r2 where ch: "choose_best_candidate a cs (strip raw) = (t2, r2)"
    by (cases "choose_best_candidate a cs (strip raw)")
  have "same_responses a b t1"
    using assms False st fc ch
    by (auto simp: process_name_def same_responses_simps Let_def
        split: sum.splits prod.splits if_splits)
  then have fcb: "find_candidates b (strip raw) = (t1, cs)"
    using find_candidates_same [of a b "strip raw"] fc by simp
  show ?thesis
  proof (cases "cs = []")
    case True
    then show ?thesis
      using False st fc fcb by (simp add: process_name_def)
  next
    case cands: False
    have "same_responses a b t2"
      using assms False st fc ch cands
      by (auto simp: process_name_def same_responses_simps Let_def
          split: sum.splits prod.splits if_splits)
    then have chb: "choose_best_candidate b cs (strip raw) = (t2, r2)"
      using choose_best_candidate_same [of a b cs "strip raw"] ch by simp
    show ?thesis
    proof (cases "\<exists>i. r2 = Inr i \<and> truthy i")
      case True
      then obtain i where i: "r2 = Inr i" "truthy i"
        by blast
      have "same_responses a b (fst (record_molecule a (strip raw) i (m, t)))"
        using assms False st fc ch cands i
        by (auto simp: process_name_def same_responses_simps Let_def split: prod.splits)
      then have "record_molecule b (strip raw) i (m, t) = record_molecule a (strip raw) i (m, t)"
        by (rule record_molecule_same)
      then show ?thesis
        using False st fc fcb ch chb cands i by (simp add: process_name_def)
    next
      case False
      then show ?thesis
        using \<open>strip raw \<noteq> []\<close> st fc fcb ch chb cands
        by (cases r2) (auto simp: process_name_def)
    qed
  qed
qed

lemma main_loop_same:
  "same_responses a b (fst (main_loop a names st)) \<Longrightarrow> main_loop b names st = main_loop a names st"
proof (induction names arbitrary: st)
  case Nil
  show ?case by simp
next
  case (Cons raw names)
  obtain t1 r1 where p: "process_name a raw st = (t1, r1)"
    by (cases "process_name a raw st")
  have "same_responses a b t1"
    using Cons.prems p
    by (auto simp: same_responses_simps split: sum.splits prod.splits)
  then have pb: "process_name b raw st = (t1, r1)"
    using process_name_same [of a b raw st] p by simp
  show ?case
  proof (cases r1)
    case (Inl e)
    then show ?thesis
      using p pb by simp
  next
    case (Inr st1)
    then have "same_responses a b (fst (main_loop a names st1))"
      using Cons.prems p by (auto simp: same_responses_simps split: prod.splits)
    then have "main_loop b names st1 = main_loop a names st1"
      by (rule Cons.IH)
    then show ?thesis
      using p pb Inr by simp
  qed
qed

text \<open>
  Claim C9. What a run yields is a function of the input table and of the responses to
  the requests that the run makes. When a second database answers every request of the
  first run as the first database did, the second run on the same table makes the same
  requests, writes the same two tables, with the same rows in the same order, and ends
  in the same way.
\<close>

theorem same_responses_same_output:
  assumes "\<forall>c \<in> set (fst (main df a)). respond b c = respond a c"
  shows "main df b = main df a"
proof (cases "map_of df ''Name''")
  case None
  then show ?thesis
    by (simp add: main_def)
next
  case (Some col)
  have "fst (main df a) = fst (main_loop a (unique (dropna col)) ([], []))"
    using Some by (simp add: main_def split: prod.splits sum.splits)
  then have "same_responses a b (fst (main_loop a (unique (dropna col)) ([], [])))"
    using assms by (simp add: same_responses_def list_all_iff)
  then have "main_loop b (unique (dropna col)) ([], []) = main_loop a (unique (dropna col)) ([], [])"
    by (rule main_loop_same)
  then show ?thesis
    using Some by (simp add: main_def)
qed

theorem same_responses_same_output_witness:
  "same_responses api_aspirin api_aspirin_later example_calls
   \<and> mechanism_filter api_aspirin_later (PStr ''CHEMBL521'')
       \<noteq> mechanism_filter api_aspirin (PStr ''CHEMBL521'')
   \<and> main df_example api_aspirin
       = (example_calls, Some (example_meta, example_targets), Inr (1, 3))
   \<and> main df_example api_aspirin_later
       = (example_calls, Some (example_meta, example_targets), Inr (1, 3))"
proof -
  have same: "same_responses api_aspirin api_aspirin_later example_calls"
    by code_simp
  have differ: "mechanism_filter api_aspirin_later (PStr ''CHEMBL521'')
       \<noteq> mechanism_filter api_aspirin (PStr ''CHEMBL521'')"
    by code_simp
  have "\<forall>c \<in> set (fst (main df_example api_aspirin)).
      respond api_aspirin_later c = respond api_aspirin c"
    using same by (simp add: example_run same_responses_def list_all_iff)
  from same_responses_same_output [OF this] same differ example_run show ?thesis
    by simp
qed

end
